theory Spec2Isabelle
  imports Complex_Main
begin

section \<open>Numbers rendered into strings\<close>

text \<open>
  The template literals of \<^verbatim>\<open>useApi.ts\<close> and \<^verbatim>\<open>formatters.ts\<close> interpolate
  numbers: \<^verbatim>\<open>`...?limit=${limit}`\<close>, \<^verbatim>\<open>`API error: ${response.status}`\<close>,
  \<^verbatim>\<open>`${hours}h ${mins}m`\<close>. JavaScript renders an integer of magnitude below \<open>2^53\<close> as
  its decimal digits, with a leading minus sign when it is negative; \<open>number_to_string\<close>
  is that rendering. It is applied to such integers only: to a response status, and
  through \<open>to_string\<close> below.
\<close>

definition digit_char :: "nat \<Rightarrow> char" where
  "digit_char d = char_of (48 + d)"

fun show_nat :: "nat \<Rightarrow> string" where
  "show_nat n = (if n < 10 then [digit_char n] else show_nat (n div 10) @ [digit_char (n mod 10)])"

declare show_nat.simps [simp del]

definition number_to_string :: "int \<Rightarrow> string" where
  "number_to_string i = (if i < 0 then CHR ''-'' # show_nat (nat (- i)) else show_nat (nat i))"

text \<open>
  Reading the digits back. These two functions are not part of the program: they are the
  left inverse of the rendering, used to show that a rendered number determines its value.
\<close>

definition digit_val :: "char \<Rightarrow> nat" where
  "digit_val c = of_char c - 48"

definition parse_nat :: "string \<Rightarrow> nat" where
  "parse_nat s = foldl (\<lambda>acc c. 10 * acc + digit_val c) 0 s"

definition string_to_number :: "string \<Rightarrow> int" where
  "string_to_number s =
     (case s of
        [] \<Rightarrow> 0
      | c # cs \<Rightarrow> if c = CHR ''-'' then - int (parse_nat cs) else int (parse_nat s))"

section \<open>JavaScript numbers\<close>

text \<open>
  A JavaScript number is a finite double, \<^verbatim>\<open>NaN\<close> or one of the two infinities. A finite
  double is modelled by the rational it denotes; the sign of zero is not modelled.
\<close>

datatype number = Finite rat | NaN | PosInfinity | NegInfinity

text \<open>
  Rounding a rational to the nearest double (binary64, ties to even): \<open>exponent x\<close> is
  the floor of the binary logarithm of a positive \<open>x\<close>, \<open>ulp x\<close> the distance between
  neighbouring doubles at \<open>x\<close> (53 significant bits, subnormal below \<open>2^-1022\<close>), and a
  result of \<open>2^1024\<close> or more is an infinity. The arithmetic operators of the language
  return the exact result rounded in this way.
\<close>

definition two_pow :: "int \<Rightarrow> rat" where
  "two_pow e = (if 0 \<le> e then 2 ^ nat e else 1 / 2 ^ nat (- e))"

fun log2_floor :: "nat \<Rightarrow> nat" where
  "log2_floor n = (if n < 2 then 0 else Suc (log2_floor (n div 2)))"

declare log2_floor.simps [simp del]

definition exponent :: "rat \<Rightarrow> int" where
  "exponent x =
     (if 1 \<le> x then int (log2_floor (nat \<lfloor>x\<rfloor>))
      else - int (Suc (log2_floor (nat (\<lceil>1 / x\<rceil> - 1)))))"

definition ulp :: "rat \<Rightarrow> rat" where
  "ulp x = two_pow (max (exponent x) (- 1022) - 52)"

definition round_half_even :: "rat \<Rightarrow> int" where
  "round_half_even y =
     (let f = \<lfloor>y\<rfloor>; r = y - of_int f
      in if r < 1 / 2 then f else if 1 / 2 < r then f + 1 else if even f then f else f + 1)"

definition round_double :: "rat \<Rightarrow> number" where
  "round_double x =
     (if x = 0 then Finite 0
      else
        let a = \<bar>x\<bar>;
            v = of_int (round_half_even (a / ulp a)) * ulp a
        in if 2 ^ 1024 \<le> v then (if x < 0 then NegInfinity else PosInfinity)
           else Finite (if x < 0 then - v else v))"

text \<open>The rationals that are doubles: those that rounding leaves alone.\<close>

definition is_double :: "rat \<Rightarrow> bool" where
  "is_double x = (round_double x = Finite x)"

text \<open>
  The operators that \<^verbatim>\<open>formatDuration\<close> uses. The right operand of \<^verbatim>\<open><\<close>, \<^verbatim>\<open>/\<close> and
  \<^verbatim>\<open>%\<close> is the literal 60 in the source; the three are modelled for a positive finite
  right operand \<open>c\<close>. A comparison with \<^verbatim>\<open>NaN\<close> is false. The quotient is rounded to a
  double. \<^verbatim>\<open>%\<close> truncates the exact quotient toward zero; its result is exact, and it is
  \<^verbatim>\<open>NaN\<close> on an infinite left operand. \<^verbatim>\<open>Math.floor\<close> and \<^verbatim>\<open>Math.round\<close> are exact;
  \<^verbatim>\<open>Math.round\<close> rounds a tie toward positive infinity.
\<close>

definition js_less :: "number \<Rightarrow> rat \<Rightarrow> bool" where
  "js_less x c = (case x of Finite q \<Rightarrow> q < c | NaN \<Rightarrow> False
                  | PosInfinity \<Rightarrow> False | NegInfinity \<Rightarrow> True)"

definition js_divide :: "number \<Rightarrow> rat \<Rightarrow> number" where
  "js_divide x c = (case x of Finite q \<Rightarrow> round_double (q / c) | NaN \<Rightarrow> NaN
                  | PosInfinity \<Rightarrow> PosInfinity | NegInfinity \<Rightarrow> NegInfinity)"

definition js_truncate :: "rat \<Rightarrow> int" where
  "js_truncate q = (if q < 0 then \<lceil>q\<rceil> else \<lfloor>q\<rfloor>)"

definition js_remainder :: "number \<Rightarrow> rat \<Rightarrow> number" where
  "js_remainder x c = (case x of Finite q \<Rightarrow> Finite (q - c * of_int (js_truncate (q / c)))
                  | NaN \<Rightarrow> NaN | PosInfinity \<Rightarrow> NaN | NegInfinity \<Rightarrow> NaN)"

definition Math_floor :: "number \<Rightarrow> number" where
  "Math_floor x = (case x of Finite q \<Rightarrow> Finite (of_int \<lfloor>q\<rfloor>) | NaN \<Rightarrow> NaN
                  | PosInfinity \<Rightarrow> PosInfinity | NegInfinity \<Rightarrow> NegInfinity)"

definition Math_round :: "number \<Rightarrow> number" where
  "Math_round x = (case x of Finite q \<Rightarrow> Finite (of_int \<lfloor>q + 1 / 2\<rfloor>) | NaN \<Rightarrow> NaN
                  | PosInfinity \<Rightarrow> PosInfinity | NegInfinity \<Rightarrow> NegInfinity)"

text \<open>
  The interpolation \<^verbatim>\<open>${...}\<close> of a number. An integer of magnitude below \<open>2^53\<close> is
  rendered as its decimal digits. The rendering of every other finite number (a
  fraction, or a number from \<open>2^53\<close> up, where the language prints the shortest digits
  that read back as the same double, and an exponent from \<open>10^21\<close> up) is not modelled:
  it is the parameter \<open>render\<close>.
\<close>

definition to_string :: "(rat \<Rightarrow> string) \<Rightarrow> number \<Rightarrow> string" where
  "to_string render x =
     (case x of
        Finite q \<Rightarrow>
          if q = of_int \<lfloor>q\<rfloor> \<and> \<bar>q\<bar> < 2 ^ 53 then number_to_string \<lfloor>q\<rfloor> else render q
      | NaN \<Rightarrow> ''NaN''
      | PosInfinity \<Rightarrow> ''Infinity''
      | NegInfinity \<Rightarrow> ''-Infinity'')"

text \<open>
  A stand-in for the renderings that are not modelled. It closes the theorems about
  concrete inputs, none of which reaches it.
\<close>

definition unrendered :: "rat \<Rightarrow> string" where
  "unrendered q = ''#''"

section \<open>The resource subscriptions of \<^verbatim>\<open>hooks/useApi.ts\<close>\<close>

text \<open>
  Each hook calls \<^verbatim>\<open>useSWR(key, fetcher, options)\<close> once. The key is the request URL;
  the options are the object literal of the call. \<^verbatim>\<open>dedupingInterval\<close> is given for the
  overview only, so it is optional. Intervals are in milliseconds.
\<close>

record swr_options =
  refreshInterval :: nat
  revalidateOnFocus :: bool
  dedupingInterval :: "nat option"

record swr_call =
  key :: string
  options :: swr_options

definition API_BASE :: string where
  "API_BASE = ''/api/v1/dashboard''"

definition useDashboardOverview :: swr_call where
  "useDashboardOverview =
     \<lparr> key = API_BASE @ ''/overview'',
       options = \<lparr> refreshInterval = 30000, revalidateOnFocus = True,
                   dedupingInterval = Some 5000 \<rparr> \<rparr>"

definition useChartsData :: swr_call where
  "useChartsData =
     \<lparr> key = API_BASE @ ''/charts'',
       options = \<lparr> refreshInterval = 60000, revalidateOnFocus = True,
                   dedupingInterval = None \<rparr> \<rparr>"

text \<open>
  \<^verbatim>\<open>useRecentActivities(limit: number = 20)\<close>: the argument is any number, or is omitted
  (\<open>None\<close>), and the default value is then used. The hook does not check the limit; it
  interpolates it into the key.
\<close>

definition limit_or_default :: "number option \<Rightarrow> number" where
  "limit_or_default limit = (case limit of None \<Rightarrow> Finite 20 | Some l \<Rightarrow> l)"

definition useRecentActivities :: "(rat \<Rightarrow> string) \<Rightarrow> number option \<Rightarrow> swr_call" where
  "useRecentActivities render limit =
     \<lparr> key = API_BASE @ ''/recent-activities?limit=''
               @ to_string render (limit_or_default limit),
       options = \<lparr> refreshInterval = 15000, revalidateOnFocus = True,
                   dedupingInterval = None \<rparr> \<rparr>"

text \<open>The endpoints that \<^verbatim>\<open>refreshAllData\<close> requests, and their URLs.\<close>

definition endpoints :: "string list" where
  "endpoints = [''/overview'', ''/charts'', ''/recent-activities'']"

definition refreshAllData_urls :: "string list" where
  "refreshAllData_urls = map (\<lambda>endpoint. API_BASE @ endpoint) endpoints"

section \<open>The fetcher of \<^verbatim>\<open>hooks/useApi.ts\<close>\<close>

text \<open>
  \<^verbatim>\<open>fetch(url)\<close> settles with a rejection reason of the platform (\<open>Inl\<close>) or with a
  response. A response has a status code; its \<^verbatim>\<open>ok\<close> flag is set exactly for the
  statuses 200 to 299; \<^verbatim>\<open>response.json()\<close> settles with a rejection reason of the
  platform or with the decoded value.
\<close>

record ('r, 'v) response =
  status :: nat
  json :: "'r + 'v"

definition ok :: "('r, 'v) response \<Rightarrow> bool" where
  "ok response = (200 \<le> status response \<and> status response \<le> 299)"

text \<open>
  What a rejected promise of \<^verbatim>\<open>fetcher\<close> carries: an \<^verbatim>\<open>Error\<close> made by the program,
  with its message, or a reason of the platform, passed on unchanged.
\<close>

datatype 'r reason = Error string | Platform 'r

text \<open>
  The \<^verbatim>\<open>async\<close> function \<^verbatim>\<open>fetcher\<close>, given the behaviour of \<^verbatim>\<open>fetch\<close>: \<open>Inl\<close> is
  the rejection of the returned promise, \<open>Inr\<close> its fulfilment. An \<^verbatim>\<open>await\<close> on a
  rejected promise rethrows the reason; a returned promise is adopted.
\<close>

definition fetcher :: "(string \<Rightarrow> 'r + ('r, 'v) response) \<Rightarrow> string \<Rightarrow> 'r reason + 'v" where
  "fetcher fetch url =
     (case fetch url of
        Inl r \<Rightarrow> Inl (Platform r)
      | Inr response \<Rightarrow>
          if \<not> ok response
          then Inl (Error (''API error: '' @ number_to_string (int (status response))))
          else (case json response of Inl r \<Rightarrow> Inl (Platform r) | Inr v \<Rightarrow> Inr v))"

text \<open>
  Reading the status back from a rejection. Not part of the program: it states what
  "the error carries the status code" means for an error whose only content is a message.
\<close>

definition http_status_of :: "'r reason \<Rightarrow> nat option" where
  "http_status_of e =
     (case e of
        Error msg \<Rightarrow>
          if take 11 msg = ''API error: '' then Some (parse_nat (drop 11 msg)) else None
      | Platform r \<Rightarrow> None)"

section \<open>Promises and the manual refresh\<close>

text \<open>
  Time is in milliseconds. A promise is modelled by when it settles and how: each request
  is taken to settle at some time; a promise that never settles is not modelled.
\<close>

type_synonym time = nat

datatype ('e, 'a) outcome = Fulfilled 'a | Rejected 'e

record ('e, 'a) promise =
  settled_at :: time
  outcome :: "('e, 'a) outcome"

definition is_fulfilled :: "('e, 'a) promise \<Rightarrow> bool" where
  "is_fulfilled p = (case outcome p of Fulfilled v \<Rightarrow> True | Rejected e \<Rightarrow> False)"

text \<open>
  \<^verbatim>\<open>Promise.all\<close>, called at time \<open>now\<close>. It rejects as soon as one member rejects, with
  that member's reason: \<open>first_rejection\<close> is the earliest rejection, the leftmost one
  among simultaneous ones. Otherwise it fulfils once every member has fulfilled, with the
  members' values in order. It cancels nothing: the members are given, each with its own
  settlement.
\<close>

fun first_rejection :: "('e, 'a) promise list \<Rightarrow> (time \<times> 'e) option" where
  "first_rejection [] = None"
| "first_rejection (p # ps) =
     (case outcome p of
        Fulfilled v \<Rightarrow> first_rejection ps
      | Rejected e \<Rightarrow>
          (case first_rejection ps of
             None \<Rightarrow> Some (settled_at p, e)
           | Some (t, e') \<Rightarrow> if settled_at p \<le> t then Some (settled_at p, e) else Some (t, e')))"

fun fulfilled_values :: "('e, 'a) promise list \<Rightarrow> 'a list" where
  "fulfilled_values [] = []"
| "fulfilled_values (p # ps) =
     (case outcome p of Fulfilled v \<Rightarrow> v # fulfilled_values ps | Rejected e \<Rightarrow> fulfilled_values ps)"

definition Promise_all :: "time \<Rightarrow> ('e, 'a) promise list \<Rightarrow> ('e, 'a list) promise" where
  "Promise_all now ps =
     (case first_rejection ps of
        None \<Rightarrow> \<lparr> settled_at = fold max (map settled_at ps) now,
                  outcome = Fulfilled (fulfilled_values ps) \<rparr>
      | Some (t, e) \<Rightarrow> \<lparr> settled_at = max now t, outcome = Rejected e \<rparr>)"

text \<open>\<^verbatim>\<open>p.catch(() => null)\<close>: a rejection becomes the value \<^verbatim>\<open>null\<close> (\<open>None\<close>).\<close>

definition catch_null :: "('e, 'a) promise \<Rightarrow> ('e, 'a option) promise" where
  "catch_null p =
     \<lparr> settled_at = settled_at p,
       outcome = (case outcome p of Fulfilled v \<Rightarrow> Fulfilled (Some v) | Rejected e \<Rightarrow> Fulfilled None) \<rparr>"

text \<open>
  The promise of an \<^verbatim>\<open>async\<close> function whose body is \<^verbatim>\<open>await p;\<close> and nothing more: it
  fulfils with \<^verbatim>\<open>undefined\<close> when \<open>p\<close> fulfils and rejects with the reason of \<open>p\<close>.
\<close>

definition await_then_return :: "('e, 'a) promise \<Rightarrow> ('e, unit) promise" where
  "await_then_return p =
     \<lparr> settled_at = settled_at p,
       outcome = (case outcome p of Fulfilled v \<Rightarrow> Fulfilled () | Rejected e \<Rightarrow> Rejected e) \<rparr>"

text \<open>
  \<^verbatim>\<open>refreshAllData\<close> of \<^verbatim>\<open>hooks/useApi.ts\<close>, called at time \<open>now\<close>; \<open>fetch url\<close> is the
  promise that \<^verbatim>\<open>fetch(url)\<close> returns.
\<close>

definition refreshAllData :: "(string \<Rightarrow> ('e, 'r) promise) \<Rightarrow> time \<Rightarrow> ('e, unit) promise" where
  "refreshAllData fetch now =
     await_then_return
       (Promise_all now (map (\<lambda>endpoint. catch_null (fetch (API_BASE @ endpoint))) endpoints))"

text \<open>
  \<^verbatim>\<open>handleRefresh\<close> of the \<^verbatim>\<open>App\<close> component, called at time \<open>now\<close>. Its three
  arguments are the \<^verbatim>\<open>refresh\<close> functions of the three hooks; each returns a promise when
  called. A run is the promise of the \<^verbatim>\<open>async\<close> callback together with the calls of
  \<^verbatim>\<open>setIsRefreshing\<close> it makes, each with its time: one at once, and one from the timer,
  500 ms after the \<^verbatim>\<open>await\<close> has returned. A timer runs its callback exactly when it is
  due (a browser runs it then or later). When the \<^verbatim>\<open>await\<close> throws, the timer is never
  set.
\<close>

record 'e refresh_run =
  completion :: "('e, unit) promise"
  setIsRefreshing :: "(time \<times> bool) list"

definition handleRefresh ::
  "(time \<Rightarrow> ('e, 'a) promise) \<Rightarrow> (time \<Rightarrow> ('e, 'a) promise) \<Rightarrow> (time \<Rightarrow> ('e, 'a) promise)
     \<Rightarrow> time \<Rightarrow> 'e refresh_run" where
  "handleRefresh refreshOverview refreshCharts refreshActivities now =
     (let p = Promise_all now [refreshOverview now, refreshCharts now, refreshActivities now]
      in case outcome p of
           Fulfilled vs \<Rightarrow>
             \<lparr> completion = \<lparr> settled_at = settled_at p, outcome = Fulfilled () \<rparr>,
               setIsRefreshing = [(now, True), (settled_at p + 500, False)] \<rparr>
         | Rejected e \<Rightarrow>
             \<lparr> completion = \<lparr> settled_at = settled_at p, outcome = Rejected e \<rparr>,
               setIsRefreshing = [(now, True)] \<rparr>)"

text \<open>
  The state \<^verbatim>\<open>isRefreshing\<close> at time \<open>t\<close>: \<^verbatim>\<open>useState(false)\<close>, then the value of the
  last update made at or before \<open>t\<close>.
\<close>

definition isRefreshing :: "(time \<times> bool) list \<Rightarrow> time \<Rightarrow> bool" where
  "isRefreshing updates t = foldl (\<lambda>v (t', b). if t' \<le> t then b else v) False updates"


text \<open>
  The \<^verbatim>\<open>App\<close> component subscribes to the three resources, the recent activities with no
  argument.
\<close>

definition App_subscriptions :: "(rat \<Rightarrow> string) \<Rightarrow> swr_call list" where
  "App_subscriptions render =
     [useDashboardOverview, useChartsData, useRecentActivities render None]"

section \<open>The revalidation behind a hook's \<^verbatim>\<open>refresh\<close>\<close>

text \<open>
  Modelled from the spec: the cache entry of a key and the per-resource revalidation
  that the \<^verbatim>\<open>refresh\<close> of a hook triggers. In the program \<^verbatim>\<open>refresh\<close> is the \<^verbatim>\<open>mutate\<close>
  that \<^verbatim>\<open>useSWR\<close> returns; the swr library is not among the sources. The definitions
  follow sections 3, 4.1, 4.3, 4.4 and 7 of the specification.

  An entry holds the last payload, the last error if the most recent attempt failed, the
  time of the last success, and whether a fetch is in flight. A key that was never
  written has the empty entry.
\<close>

record ('e, 'v) cache_entry =
  data :: "'v option"
  error :: "'e option"
  fetchedAt :: "time option"
  isValidating :: bool

definition empty_entry :: "('e, 'v) cache_entry" where
  "empty_entry = \<lparr> data = None, error = None, fetchedAt = None, isValidating = False \<rparr>"

definition empty_cache :: "string \<Rightarrow> ('e, 'v) cache_entry" where
  "empty_cache k = empty_entry"

text \<open>
  Modelled from the spec: the two partial updates of a revalidation (section 4.3). It
  sets \<^verbatim>\<open>isValidating\<close> at once. On settlement at time \<open>t\<close> a success stores the payload
  and the time and leaves no error; a failure stores the error and keeps the payload and
  the time of the last success (the stale-while-error policy of sections 3 and 7).
\<close>

datatype ('e, 'v) patch = Validating | Settled "('e, 'v) outcome"

definition apply_patch ::
  "time \<Rightarrow> ('e, 'v) patch \<Rightarrow> ('e, 'v) cache_entry \<Rightarrow> ('e, 'v) cache_entry" where
  "apply_patch t p entry =
     (case p of
        Validating \<Rightarrow> entry\<lparr> isValidating := True \<rparr>
      | Settled result \<Rightarrow>
          (case result of
             Fulfilled v \<Rightarrow>
               \<lparr> data = Some v, error = None, fetchedAt = Some t, isValidating = False \<rparr>
           | Rejected e \<Rightarrow> entry\<lparr> error := Some e, isValidating := False \<rparr>))"

text \<open>
  Modelled from the spec: the cache at time \<open>t\<close>, after the writes made at or before \<open>t\<close>.
  The writes are applied in the order of the list; those of one revalidation are in the
  order of time, and writes to different keys do not interfere.
\<close>

definition cache_at ::
  "(time \<times> string \<times> ('e, 'v) patch) list \<Rightarrow> (string \<Rightarrow> ('e, 'v) cache_entry) \<Rightarrow> time
     \<Rightarrow> string \<Rightarrow> ('e, 'v) cache_entry" where
  "cache_at writes cache t =
     foldl (\<lambda>c (t', k, p). if t' \<le> t then c(k := apply_patch t' p (c k)) else c) cache writes"

text \<open>
  Modelled from the spec: a revalidation of key \<open>k\<close> started at time \<open>now\<close>. \<open>request k\<close>
  is the promise of the Fetch Client's request that serves it (its own, or one already in
  flight that the Deduplicator shares). The revalidation marks the entry, and commits the
  result when the request settles. Its own promise fulfils once the result is committed,
  also when the request failed: a member surfaces its error through its cache entry
  (section 4.4).
\<close>

record ('e, 'v) revalidation =
  refresh_promise :: "('e, unit) promise"
  writes_of :: "(time \<times> string \<times> ('e, 'v) patch) list"

definition revalidate ::
  "(string \<Rightarrow> ('e, 'v) promise) \<Rightarrow> string \<Rightarrow> time \<Rightarrow> ('e, 'v) revalidation" where
  "revalidate request k now =
     (let p = request k; t = max now (settled_at p)
      in \<lparr> refresh_promise = \<lparr> settled_at = t, outcome = Fulfilled () \<rparr>,
           writes_of = [(now, k, Validating), (t, k, Settled (outcome p))] \<rparr>)"

section \<open>The manual refresh and the cache\<close>

text \<open>
  \<^verbatim>\<open>handleRefresh\<close> together with the cache writes of the three refreshes it calls. The
  calls are those of the source, \<^verbatim>\<open>[refreshOverview(), refreshCharts(),
  refreshActivities()]\<close>; the promises it awaits and the writes come from the same calls.
\<close>

record ('e, 'v) refresh_effects =
  run :: "'e refresh_run"
  cache_writes :: "(time \<times> string \<times> ('e, 'v) patch) list"

definition handleRefresh_effects ::
  "(time \<Rightarrow> ('e, 'v) revalidation) \<Rightarrow> (time \<Rightarrow> ('e, 'v) revalidation)
     \<Rightarrow> (time \<Rightarrow> ('e, 'v) revalidation) \<Rightarrow> time \<Rightarrow> ('e, 'v) refresh_effects" where
  "handleRefresh_effects refreshOverview refreshCharts refreshActivities now =
     (let calls = [refreshOverview now, refreshCharts now, refreshActivities now]
      in \<lparr> run = handleRefresh (\<lambda>t. refresh_promise (refreshOverview t))
                   (\<lambda>t. refresh_promise (refreshCharts t))
                   (\<lambda>t. refresh_promise (refreshActivities t)) now,
           cache_writes = concat (map writes_of calls) \<rparr>)"

text \<open>
  The manual refresh as the \<^verbatim>\<open>App\<close> builds it: the \<^verbatim>\<open>refresh\<close> of each hook is the
  revalidation of that hook's key.
\<close>

definition App_manual_refresh ::
  "(rat \<Rightarrow> string) \<Rightarrow> (string \<Rightarrow> ('e, 'v) promise) \<Rightarrow> time \<Rightarrow> ('e, 'v) refresh_effects" where
  "App_manual_refresh render request now =
     handleRefresh_effects (revalidate request (key useDashboardOverview))
       (revalidate request (key useChartsData))
       (revalidate request (key (useRecentActivities render None))) now"

text \<open>The entry of key \<open>k\<close> at the time the manual refresh has settled.\<close>

definition entry_after_refresh ::
  "(rat \<Rightarrow> string) \<Rightarrow> (string \<Rightarrow> ('e, 'v) promise) \<Rightarrow> (string \<Rightarrow> ('e, 'v) cache_entry)
     \<Rightarrow> time \<Rightarrow> string \<Rightarrow> ('e, 'v) cache_entry" where
  "entry_after_refresh render request cache now k =
     cache_at (cache_writes (App_manual_refresh render request now)) cache
       (settled_at (completion (run (App_manual_refresh render request now)))) k"

text \<open>
  \<^verbatim>\<open>refreshAllData\<close> calls \<^verbatim>\<open>fetch\<close>, \<^verbatim>\<open>catch\<close> and \<^verbatim>\<open>Promise.all\<close> and nothing else: no
  hook, no \<^verbatim>\<open>refresh\<close>. It sets no flag and makes no cache write.
\<close>

definition refreshAllData_effects ::
  "(string \<Rightarrow> ('e, 'r) promise) \<Rightarrow> time \<Rightarrow> ('e, 'v) refresh_effects" where
  "refreshAllData_effects fetch now =
     \<lparr> run = \<lparr> completion = refreshAllData fetch now, setIsRefreshing = [] \<rparr>,
       cache_writes = [] \<rparr>"

text \<open>
  Inputs for the closed theorems below: a refresh that fulfils \<open>d\<close> ms after it is called;
  a network that answers the overview and the recent activities after 10 ms and fails on
  the charts after 50 ms; and one that fails on the charts after 10 ms, before it answers
  the overview after 50 ms and the recent activities after 20 ms.
\<close>

definition fulfils_after :: "time \<Rightarrow> time \<Rightarrow> ('e, unit) promise" where
  "fulfils_after d now = \<lparr> settled_at = now + d, outcome = Fulfilled () \<rparr>"

definition example_fetch :: "string \<Rightarrow> (string, string) promise" where
  "example_fetch url =
     (if url = ''/api/v1/dashboard/charts''
      then \<lparr> settled_at = 50, outcome = Rejected ''connection refused'' \<rparr>
      else \<lparr> settled_at = 10, outcome = Fulfilled ''{}'' \<rparr>)"

definition early_failure :: "string \<Rightarrow> (string, string) promise" where
  "early_failure url =
     (if url = ''/api/v1/dashboard/charts''
      then \<lparr> settled_at = 10, outcome = Rejected ''connection refused'' \<rparr>
      else if url = ''/api/v1/dashboard/overview''
      then \<lparr> settled_at = 50, outcome = Fulfilled ''{}'' \<rparr>
      else \<lparr> settled_at = 20, outcome = Fulfilled ''[]'' \<rparr>)"

section \<open>\<^verbatim>\<open>formatDuration\<close> of \<^verbatim>\<open>utils/formatters.ts\<close>\<close>

text \<open>\<^verbatim>\<open>formatDuration(minutes: number | null)\<close>; \<open>None\<close> is \<^verbatim>\<open>null\<close>.\<close>

definition formatDuration :: "(rat \<Rightarrow> string) \<Rightarrow> number option \<Rightarrow> string" where
  "formatDuration render minutes =
     (case minutes of
        None \<Rightarrow> ''N/A''
      | Some m \<Rightarrow>
          if js_less m 60 then to_string render (Math_round m) @ ''min''
          else
            let hours = Math_floor (js_divide m 60);
                mins = Math_round (js_remainder m 60)
            in to_string render hours @ ''h '' @ to_string render mins @ ''m'')"

section \<open>Rendering and reading back\<close>

lemma digit_char_numerals:
  "digit_char 0 = CHR ''0''" "digit_char (Suc 0) = CHR ''1''" "digit_char 1 = CHR ''1''"
  "digit_char 2 = CHR ''2''" "digit_char 3 = CHR ''3''" "digit_char 4 = CHR ''4''"
  "digit_char 5 = CHR ''5''" "digit_char 6 = CHR ''6''" "digit_char 7 = CHR ''7''"
  "digit_char 8 = CHR ''8''" "digit_char 9 = CHR ''9''"
  by code_simp+

lemma of_char_digit_char: "d < 10 \<Longrightarrow> digit_val (digit_char d) = d"
  by (simp add: digit_val_def digit_char_def)

lemma parse_nat_snoc: "parse_nat (s @ [c]) = 10 * parse_nat s + digit_val c"
  by (simp add: parse_nat_def)

lemma parse_show_nat: "parse_nat (show_nat n) = n"
proof (induction n rule: show_nat.induct)
  case (1 n)
  show ?case
  proof (cases "n < 10")
    case True
    then show ?thesis
      by (simp add: show_nat.simps [of n] parse_nat_def of_char_digit_char)
  next
    case False
    then have "parse_nat (show_nat n) = 10 * (n div 10) + n mod 10"
      using 1 by (simp add: show_nat.simps [of n] parse_nat_snoc of_char_digit_char)
    then show ?thesis by simp
  qed
qed

lemma show_nat_not_Nil: "show_nat n \<noteq> []"
  by (simp add: show_nat.simps [of n])

lemma digit_char_not_minus: "d < 10 \<Longrightarrow> digit_char d \<noteq> CHR ''-''"
proof
  assume d: "d < 10" and eq: "digit_char d = CHR ''-''"
  have "(of_char (digit_char d) :: nat) = 48 + d"
    using d by (simp add: digit_char_def)
  moreover have "(of_char (CHR ''-'') :: nat) = 45" by simp
  ultimately show False using eq by simp
qed

lemma hd_show_nat_not_minus: "hd (show_nat n) \<noteq> CHR ''-''"
proof (induction n rule: show_nat.induct)
  case (1 n)
  show ?case
  proof (cases "n < 10")
    case True
    then show ?thesis by (simp add: show_nat.simps [of n] digit_char_not_minus)
  next
    case False
    then show ?thesis
      using 1 by (simp add: show_nat.simps [of n] show_nat_not_Nil)
  qed
qed

lemma string_to_number_show_nat: "string_to_number (show_nat n) = int n"
proof (cases "show_nat n")
  case Nil
  then show ?thesis by (simp add: show_nat_not_Nil)
next
  case (Cons c cs)
  then have "c \<noteq> CHR ''-''" using hd_show_nat_not_minus [of n] by simp
  then show ?thesis
    using Cons parse_show_nat [of n] by (simp add: string_to_number_def)
qed

lemma string_to_number_inverse: "string_to_number (number_to_string i) = i"
  by (simp add: number_to_string_def string_to_number_show_nat)
    (simp add: string_to_number_def parse_show_nat)

lemma number_to_string_eq_iff: "number_to_string a = number_to_string b \<longleftrightarrow> a = b"
  by (metis string_to_number_inverse)

section \<open>Rounding to a double\<close>

lemma log2_floor_bounds: "1 \<le> n \<Longrightarrow> 2 ^ log2_floor n \<le> n \<and> n < 2 * 2 ^ log2_floor n"
proof (induction n rule: log2_floor.induct)
  case (1 n)
  show ?case
  proof (cases "n < 2")
    case True
    with 1(2) have "n = Suc 0" by simp
    then show ?thesis by (simp add: log2_floor.simps [of "Suc 0"])
  next
    case False
    then have "1 \<le> n div 2" by simp
    with 1(1) False have ih: "2 ^ log2_floor (n div 2) \<le> n div 2"
      "n div 2 < 2 * 2 ^ log2_floor (n div 2)" by simp_all
    have s: "log2_floor n = Suc (log2_floor (n div 2))"
      using False by (simp add: log2_floor.simps [of n])
    show ?thesis unfolding s using ih by (simp, linarith)
  qed
qed

lemma exponent_bounds:
  assumes "1 \<le> x"
  shows "exponent x = int (log2_floor (nat \<lfloor>x\<rfloor>))"
    and "2 ^ log2_floor (nat \<lfloor>x\<rfloor>) \<le> x"
    and "x < 2 * 2 ^ log2_floor (nat \<lfloor>x\<rfloor>)"
proof -
  let ?N = "nat \<lfloor>x\<rfloor>"
  let ?E = "log2_floor ?N"
  show "exponent x = int ?E" using assms by (simp add: exponent_def)
  have f: "1 \<le> \<lfloor>x\<rfloor>" using assms by (simp add: le_floor_iff)
  then have N: "1 \<le> ?N" by linarith
  note b = log2_floor_bounds [OF N]
  have N': "(of_nat ?N :: rat) = of_int \<lfloor>x\<rfloor>" using f by simp
  have "(2::rat) ^ ?E = of_nat (2 ^ ?E)" by simp
  also have "\<dots> \<le> of_nat ?N" using conjunct1 [OF b] by (simp only: of_nat_le_iff)
  also have "\<dots> = of_int \<lfloor>x\<rfloor>" by (rule N')
  also have "\<dots> \<le> x" by simp
  finally show "2 ^ ?E \<le> x" .
  have "?N + 1 \<le> 2 * 2 ^ ?E" using conjunct2 [OF b] by simp
  then have "(of_nat (?N + 1) :: rat) \<le> of_nat (2 * 2 ^ ?E)" by (simp only: of_nat_le_iff)
  then have "of_int \<lfloor>x\<rfloor> + 1 \<le> (2 * 2 ^ ?E :: rat)" using N' by simp
  moreover have "x < of_int \<lfloor>x\<rfloor> + 1" by linarith
  ultimately show "x < 2 * 2 ^ ?E" by linarith
qed

lemma two_pow_neg: "two_pow (- int k) = 1 / 2 ^ k"
  by (auto simp: two_pow_def)

lemma exponent_shift:
  fixes x y :: rat
  assumes "1 \<le> x" "x \<le> y / 32"
  shows "log2_floor (nat \<lfloor>x\<rfloor>) + 5 \<le> log2_floor (nat \<lfloor>y\<rfloor>)"
proof -
  let ?a = "log2_floor (nat \<lfloor>x\<rfloor>)"
  let ?b = "log2_floor (nat \<lfloor>y\<rfloor>)"
  have y: "1 \<le> y" using assms by simp
  have "(2::rat) ^ ?a * 32 \<le> x * 32" using exponent_bounds(2) [OF assms(1)] by simp
  also have "\<dots> \<le> y" using assms(2) by simp
  also have "\<dots> < 2 * 2 ^ ?b" by (rule exponent_bounds(3) [OF y])
  finally have "(2::rat) ^ (?a + 5) < 2 ^ (?b + 1)" by (simp add: power_add)
  then have "?a + 5 < ?b + 1" by (simp only: power_strict_increasing_iff [of "2::rat"])
  then show ?thesis by simp
qed

lemma ulp_below_2_53:
  assumes "1 \<le> x" "x < 2 ^ 53"
  shows "log2_floor (nat \<lfloor>x\<rfloor>) \<le> 52"
    and "ulp x = 1 / 2 ^ (52 - log2_floor (nat \<lfloor>x\<rfloor>))"
proof -
  let ?E = "log2_floor (nat \<lfloor>x\<rfloor>)"
  have "(2::rat) ^ ?E < 2 ^ 53" using exponent_bounds(2) [OF assms(1)] assms(2) by linarith
  then have "?E < 53" by (simp only: power_strict_increasing_iff [of "2::rat"])
  then show E: "?E \<le> 52" by simp
  have "max (exponent x) (- 1022) - 52 = - int (52 - ?E)"
    using exponent_bounds(1) [OF assms(1)] E by simp
  then show "ulp x = 1 / 2 ^ (52 - ?E)"
    by (simp only: ulp_def two_pow_neg)
qed

lemma round_half_even_bounds:
  "of_int (round_half_even y) \<le> y + 1 / 2" "\<lfloor>y\<rfloor> \<le> round_half_even y"
  by (auto simp: round_half_even_def Let_def) linarith+

lemma double_multiple_of_ulp:
  assumes "is_double n" "0 < n"
  shows "\<exists>m::int. n = of_int m * ulp n"
proof -
  let ?v = "of_int (round_half_even (n / ulp n)) * ulp n"
  have e: "round_double n = Finite n" using assms(1) by (simp add: is_double_def)
  have a: "\<bar>n\<bar> = n" "n \<noteq> 0" "\<not> n < 0" using assms(2) by simp_all
  have r: "round_double n = (if 2 ^ 1024 \<le> ?v then PosInfinity else Finite ?v)"
    by (simp only: round_double_def Let_def a if_False)
  have "?v = n"
  proof (cases "2 ^ 1024 \<le> ?v")
    case True
    then have "round_double n = PosInfinity" by (simp only: r if_True)
    with e show ?thesis by simp
  next
    case False
    then have "round_double n = Finite ?v" by (simp only: r if_False)
    with e show ?thesis by simp
  qed
  then show ?thesis by metis
qed

text \<open>
  Below \<open>2^53\<close> the rounding of the quotient by 60 does not reach the next integer: a
  double \<open>n\<close> is a multiple of its \<open>ulp\<close>, so \<open>n / 60\<close> is at least \<open>ulp n / 60\<close> below
  the next integer, and the \<open>ulp\<close> of the quotient is at most \<open>ulp n / 32\<close>.
\<close>

lemma quotient_floor:
  assumes d: "is_double n" and lo: "60 \<le> n" and hi: "n < 2 ^ 53"
  shows "\<exists>r. round_double (n / 60) = Finite r \<and> \<lfloor>r\<rfloor> = \<lfloor>n / 60\<rfloor>"
proof -
  let ?q = "n / 60"
  let ?En = "log2_floor (nat \<lfloor>n\<rfloor>)"
  let ?Eq = "log2_floor (nat \<lfloor>?q\<rfloor>)"
  have n1: "1 \<le> n" and q1: "1 \<le> ?q" and qhi: "?q < 2 ^ 53" and q32: "?q \<le> n / 32"
    using lo hi by simp_all
  have En: "?En \<le> 52" and un: "ulp n = 1 / 2 ^ (52 - ?En)"
    using ulp_below_2_53 [OF n1 hi] by simp_all
  have Eq: "?Eq \<le> 52" and uq: "ulp ?q = 1 / 2 ^ (52 - ?Eq)"
    using ulp_below_2_53 [OF q1 qhi] by simp_all
  have sh: "?Eq + 5 \<le> ?En" by (rule exponent_shift [OF q1 q32])
  define a where "a = 52 - ?En"
  define c where "c = ?En - ?Eq"
  have b: "52 - ?Eq = a + c" and c5: "5 \<le> c" using En Eq sh by (simp_all add: a_def c_def)
  define A :: rat where "A = 2 ^ a"
  define C :: rat where "C = 2 ^ c"
  have A0: "0 < A" by (simp add: A_def)
  have "(2::rat) ^ 5 \<le> 2 ^ c" using c5 by (simp only: power_increasing_iff [of "2::rat"])
  then have C32: "32 \<le> C" by (simp add: C_def)
  have uq': "ulp ?q = 1 / (A * C)" by (simp add: uq b A_def C_def power_add)
  obtain m :: int where nm: "n = of_int m * ulp n"
    using double_multiple_of_ulp [OF d] n1 by auto
  have "ulp n * A = 1" by (simp add: un a_def A_def)
  then have "of_int m * (ulp n * A) = (of_int m :: rat)" by simp
  moreover have "n * A = of_int m * ulp n * A"
    using nm by (rule arg_cong [where f = "\<lambda>z. z * A"])
  ultimately have m: "n * A = of_int m" by (simp only: mult.assoc)
  let ?K = "\<lfloor>?q\<rfloor>"
  define X where "X = ?q * (A * C)"
  define Y where "Y = (of_int ?K + 1) * (A * C)"
  define M where "M = round_half_even X"
  have AC: "A * C = of_int (2 ^ a * 2 ^ c)" by (simp add: A_def C_def)
  have AC0: "0 < A * C" using A0 C32 by simp
  \<comment> \<open>the rounded quotient is not below the floor\<close>
  have "of_int ?K \<le> ?q" by (rule of_int_floor_le)
  then have "of_int ?K * (A * C) \<le> ?q * (A * C)"
    using AC0 by (intro mult_right_mono) simp_all
  then have "of_int ?K * (A * C) \<le> X" by (simp only: X_def)
  then have "of_int (?K * (2 ^ a * 2 ^ c)) \<le> X" by (simp add: AC)
  then have "?K * (2 ^ a * 2 ^ c) \<le> \<lfloor>X\<rfloor>" by (simp only: le_floor_iff)
  also have "\<dots> \<le> M" unfolding M_def by (rule round_half_even_bounds(2))
  finally have "of_int (?K * (2 ^ a * 2 ^ c)) \<le> (of_int M :: rat)" by (simp only: of_int_le_iff)
  then have low: "of_int ?K * (A * C) \<le> of_int M" by (simp add: AC)
  \<comment> \<open>and it stays below the next integer\<close>
  define Z :: int where "Z = (?K + 1) * 60 * 2 ^ a - m"
  have Zr: "of_int Z = ((of_int ?K + 1) * 60 - n) * A"
    by (simp add: Z_def m [symmetric] A_def algebra_simps)
  have "?q < of_int ?K + 1" by linarith
  then have "0 < (of_int ?K + 1) * 60 - n" by (simp add: field_simps)
  then have "0 < ((of_int ?K + 1) * 60 - n) * A" using A0 by simp
  then have "0 < Z" using Zr by (metis of_int_0_less_iff)
  then have "(1::rat) \<le> of_int Z" by simp
  then have "1 * C \<le> ((of_int ?K + 1) * 60 - n) * A * C"
    using C32 Zr by (simp add: mult_right_mono)
  also have "((of_int ?K + 1) * 60 - n) * A * C = 60 * Y - 60 * X"
    by (simp add: X_def Y_def algebra_simps)
  finally have gap: "32 \<le> 60 * Y - 60 * X" using C32 by simp
  have "of_int M \<le> X + 1 / 2" unfolding M_def by (rule round_half_even_bounds(1))
  then have up: "of_int M < Y" using gap by linarith
  \<comment> \<open>the result\<close>
  define r where "r = of_int M * (1 / (A * C))"
  have rK: "of_int ?K \<le> r" and rK1: "r < of_int ?K + 1"
    using low up AC0 by (simp_all add: r_def Y_def field_simps)
  have "r < 2 ^ 1024"
  proof -
    have "r < ?q + 1" using rK1 by linarith
    also have "\<dots> < 2 ^ 53 + 1" using qhi by simp
    also have "\<dots> \<le> (2::rat) ^ 1024" by simp
    finally show ?thesis .
  qed
  moreover have "r = of_int (round_half_even (\<bar>?q\<bar> / ulp \<bar>?q\<bar>)) * ulp \<bar>?q\<bar>"
    using q1 by (simp add: r_def M_def X_def uq')
  ultimately have "round_double ?q = Finite r"
    using q1 by (simp add: round_double_def Let_def)
  moreover have "\<lfloor>r\<rfloor> = ?K" using rK rK1 by (simp add: floor_unique)
  ultimately show ?thesis by blast
qed

section \<open>Per-resource configuration\<close>

text \<open>
  C8. Each subscription has its own revalidation interval: 30 seconds for the overview,
  60 seconds for the charts, 15 seconds for the recent activities (whatever the limit),
  and each has revalidation on window focus enabled.
\<close>

theorem revalidation_intervals:
  "refreshInterval (options useDashboardOverview) = 30 * 1000
   \<and> refreshInterval (options useChartsData) = 60 * 1000
   \<and> refreshInterval (options (useRecentActivities render limit)) = 15 * 1000
   \<and> revalidateOnFocus (options useDashboardOverview)
   \<and> revalidateOnFocus (options useChartsData)
   \<and> revalidateOnFocus (options (useRecentActivities render limit))"
  by (simp add: useDashboardOverview_def useChartsData_def useRecentActivities_def)

section \<open>The limit of the recent activities\<close>

lemma to_string_integer:
  "\<bar>l\<bar> < 2 ^ 53 \<Longrightarrow> to_string render (Finite (of_int l)) = number_to_string l"
proof -
  assume "\<bar>l\<bar> < 2 ^ 53"
  then have "\<bar>of_int l :: rat\<bar> < of_int (2 ^ 53)"
    by (simp only: of_int_abs [symmetric] of_int_less_iff)
  then show ?thesis by (simp add: to_string_def)
qed

lemma key_useRecentActivities:
  "key (useRecentActivities render limit) =
     ''/api/v1/dashboard/recent-activities?limit='' @ to_string render (limit_or_default limit)"
  by (simp add: useRecentActivities_def API_BASE_def)

lemma key_useRecentActivities_integer:
  assumes "\<bar>l\<bar> < 2 ^ 53"
  shows "key (useRecentActivities render (Some (Finite (of_int l)))) =
     ''/api/v1/dashboard/recent-activities?limit='' @ number_to_string l"
  by (simp only: key_useRecentActivities limit_or_default_def option.case
      to_string_integer [OF assms])

text \<open>
  C9, as stated, fails: the request that \<^verbatim>\<open>refreshAllData\<close> makes for the recent
  activities has no query string at all, and \<^verbatim>\<open>useRecentActivities(0)\<close> sends
  \<^verbatim>\<open>?limit=0\<close>, which is not a positive integer.
\<close>

theorem recent_activities_limit_counterexample:
  "refreshAllData_urls ! 2 = ''/api/v1/dashboard/recent-activities''
   \<and> CHR ''?'' \<notin> set (refreshAllData_urls ! 2)
   \<and> key (useRecentActivities unrendered (Some (Finite 0)))
       = ''/api/v1/dashboard/recent-activities?limit=0''"
proof -
  have "key (useRecentActivities unrendered (Some (Finite (of_int 0)))) =
      ''/api/v1/dashboard/recent-activities?limit='' @ number_to_string 0"
    by (rule key_useRecentActivities_integer) simp
  then show ?thesis
    by (simp add: refreshAllData_urls_def endpoints_def API_BASE_def number_to_string_def
        show_nat.simps digit_char_numerals)
qed

text \<open>
  C9, amended. The key (and request URL) of \<^verbatim>\<open>useRecentActivities\<close> ends in
  \<^verbatim>\<open>?limit=N\<close>, where \<open>N\<close> is the caller's limit as the language renders it, whatever
  number it is (\<^verbatim>\<open>NaN\<close> for \<^verbatim>\<open>NaN\<close>), and 20 when the caller passes none. For an
  integer limit of magnitude below \<open>2^53\<close>, \<open>N\<close> is its decimal digits and reads back as
  exactly that limit, so it is a positive integer whenever the limit is one; and two such
  limits give the same key exactly when they are equal. The request that
  \<^verbatim>\<open>refreshAllData\<close> makes carries no limit.
\<close>

theorem useRecentActivities_key:
  "key (useRecentActivities render limit) =
     ''/api/v1/dashboard/recent-activities?limit='' @ to_string render (limit_or_default limit)
   \<and> key (useRecentActivities render None) = ''/api/v1/dashboard/recent-activities?limit=20''
   \<and> key (useRecentActivities render (Some NaN)) = ''/api/v1/dashboard/recent-activities?limit=NaN''
   \<and> (\<bar>l\<bar> < 2 ^ 53 \<longrightarrow>
        key (useRecentActivities render (Some (Finite (of_int l)))) =
          ''/api/v1/dashboard/recent-activities?limit='' @ number_to_string l
        \<and> string_to_number (number_to_string l) = l)
   \<and> (\<bar>a\<bar> < 2 ^ 53 \<and> \<bar>b\<bar> < 2 ^ 53 \<longrightarrow>
        (key (useRecentActivities render (Some (Finite (of_int a))))
           = key (useRecentActivities render (Some (Finite (of_int b))))
         \<longleftrightarrow> a = b))
   \<and> refreshAllData_urls ! 2 = ''/api/v1/dashboard/recent-activities''"
proof -
  have twenty: "to_string render (Finite 20) = ''20''"
    using to_string_integer [of 20 render]
    by (simp add: number_to_string_def show_nat.simps digit_char_numerals)
  have d: "key (useRecentActivities render None) = ''/api/v1/dashboard/recent-activities?limit=20''"
    by (simp add: key_useRecentActivities limit_or_default_def twenty)
  have n: "key (useRecentActivities render (Some NaN)) =
      ''/api/v1/dashboard/recent-activities?limit=NaN''"
    by (simp add: key_useRecentActivities limit_or_default_def to_string_def)
  have e: "\<bar>a\<bar> < 2 ^ 53 \<and> \<bar>b\<bar> < 2 ^ 53 \<longrightarrow>
        (key (useRecentActivities render (Some (Finite (of_int a))))
           = key (useRecentActivities render (Some (Finite (of_int b))))
         \<longleftrightarrow> a = b)"
    by (simp add: key_useRecentActivities_integer number_to_string_eq_iff)
  have u: "refreshAllData_urls ! 2 = ''/api/v1/dashboard/recent-activities''"
    by (simp add: refreshAllData_urls_def endpoints_def API_BASE_def)
  show ?thesis
    using key_useRecentActivities [of render limit] d n e u
      key_useRecentActivities_integer [of l render] string_to_number_inverse [of l]
    by blast
qed

theorem useRecentActivities_key_witness:
  "\<bar>50 :: int\<bar> < 2 ^ 53 \<and> \<bar>5 :: int\<bar> < 2 ^ 53
   \<and> key (useRecentActivities unrendered (Some (Finite 50)))
       = ''/api/v1/dashboard/recent-activities?limit=50''
   \<and> key (useRecentActivities unrendered (Some (Finite 50)))
       \<noteq> key (useRecentActivities unrendered (Some (Finite 5)))"
proof -
  have h: "\<bar>50 :: int\<bar> < 2 ^ 53" "\<bar>5 :: int\<bar> < 2 ^ 53" by simp_all
  have s: "number_to_string 50 = ''50''"
    by (simp add: number_to_string_def show_nat.simps digit_char_numerals)
  note T = useRecentActivities_key [of unrendered None 50 50 5]
  have "key (useRecentActivities unrendered (Some (Finite (of_int 50))))
      = ''/api/v1/dashboard/recent-activities?limit='' @ number_to_string 50"
    using T h by blast
  then have a: "key (useRecentActivities unrendered (Some (Finite 50)))
      = ''/api/v1/dashboard/recent-activities?limit=50''"
    using s by simp
  have "key (useRecentActivities unrendered (Some (Finite (of_int 50))))
      = key (useRecentActivities unrendered (Some (Finite (of_int 5)))) \<longleftrightarrow> (50::int) = 5"
    using T h by blast
  then have b: "key (useRecentActivities unrendered (Some (Finite 50)))
      \<noteq> key (useRecentActivities unrendered (Some (Finite 5)))"
    by simp
  from h a b show ?thesis by (simp only: simp_thms)
qed

section \<open>Durations\<close>

lemma formatDuration_last: "last (formatDuration render (Some m)) \<in> {CHR ''n'', CHR ''m''}"
  by (simp add: formatDuration_def Let_def)

lemma formatDuration_NA_iff: "formatDuration render x = ''N/A'' \<longleftrightarrow> x = None"
proof (cases x)
  case None
  then show ?thesis by (simp add: formatDuration_def)
next
  case (Some m)
  have "last (formatDuration render (Some m)) \<noteq> last ''N/A''"
    using formatDuration_last [of render m] by auto
  then show ?thesis using Some by auto
qed

lemma formatDuration_below_hour:
  assumes "0 \<le> m" "m < 60"
  shows "formatDuration render (Some (Finite m)) = number_to_string (round m) @ ''min''"
proof -
  have "0 \<le> round m" "round m \<le> 60" using assms unfolding round_def by linarith+
  then have "\<bar>round m\<bar> < 2 ^ 53" by simp
  then have "to_string render (Finite (of_int (round m))) = number_to_string (round m)"
    by (rule to_string_integer)
  then show ?thesis
    using assms(2) by (simp add: formatDuration_def js_less_def Math_round_def round_def)
qed

lemma rounded_remainder_range:
  fixes m :: rat
  shows "0 \<le> round (m - 60 * of_int \<lfloor>m / 60\<rfloor>) \<and> round (m - 60 * of_int \<lfloor>m / 60\<rfloor>) \<le> 60"
proof -
  let ?r = "m - 60 * of_int \<lfloor>m / 60\<rfloor>"
  have lo: "0 \<le> ?r" using of_int_floor_le [of "m / 60"] by linarith
  have hi: "?r < 60" using floor_correct [of "m / 60"] by linarith
  have "0 \<le> round ?r" using lo unfolding round_def by linarith
  moreover have "round ?r \<le> 60" using hi unfolding round_def by linarith
  ultimately show ?thesis by simp
qed

lemma formatDuration_from_hour:
  assumes "is_double n" "60 \<le> n" "n < 2 ^ 53"
  shows "formatDuration render (Some (Finite n)) =
     number_to_string \<lfloor>n / 60\<rfloor> @ ''h '' @
     number_to_string (round (n - 60 * of_int \<lfloor>n / 60\<rfloor>)) @ ''m''"
proof -
  let ?K = "\<lfloor>n / 60\<rfloor>"
  let ?mins = "round (n - 60 * of_int ?K)"
  obtain r where r: "round_double (n / 60) = Finite r" "\<lfloor>r\<rfloor> = ?K"
    using quotient_floor [OF assms] by blast
  have K: "0 \<le> ?K" "of_int ?K \<le> n / 60"
    using assms(2) of_int_floor_le [of "n / 60"] by simp_all
  then have "(of_int ?K :: rat) < 2 ^ 53" using assms(3) by linarith
  then have "?K < 2 ^ 53" by (metis of_int_less_numeral_power_cancel_iff)
  then have "\<bar>?K\<bar> < 2 ^ 53" using K(1) by simp
  then have hours: "to_string render (Finite (of_int ?K)) = number_to_string ?K"
    by (rule to_string_integer)
  have "\<bar>?mins\<bar> < 2 ^ 53" using rounded_remainder_range [of n] by simp
  then have mins: "to_string render (Finite (of_int ?mins)) = number_to_string ?mins"
    by (rule to_string_integer)
  have t: "js_truncate (n / 60) = ?K" using assms(2) by (simp add: js_truncate_def)
  have "formatDuration render (Some (Finite n)) =
      to_string render (Finite (of_int ?K)) @ ''h '' @
      to_string render (Finite (of_int ?mins)) @ ''m''"
    using assms(2) r
    by (simp add: formatDuration_def js_less_def Math_round_def Math_floor_def js_divide_def
        js_remainder_def t round_def Let_def)
  then show ?thesis by (simp only: hours mins)
qed

lemma round_half_even_of_int: "round_half_even (of_int m) = m"
  by (simp add: round_half_even_def)

lemma ulp_positive: "0 < ulp x"
  by (simp add: ulp_def two_pow_def)

lemma is_double_multiple:
  assumes "0 < x" "x = of_int m * ulp x" "x < 2 ^ 1024"
  shows "is_double x"
proof -
  have "x / ulp x = of_int m * (ulp x / ulp x)" using assms(2) by (metis times_divide_eq_right)
  then have "x / ulp x = of_int m" using ulp_positive [of x] by simp
  then have "of_int (round_half_even (x / ulp x)) * ulp x = x"
    using assms(2) by (simp only: round_half_even_of_int)
  then show ?thesis
    using assms(1,3) by (simp add: is_double_def round_double_def Let_def)
qed

text \<open>Three doubles: 119.5, 125 and 539999999999999936, which is 8437499999999999 times 64.\<close>

lemma is_double_119_5: "is_double (239 / 2)"
proof -
  have "\<lfloor>239 / 2 :: rat\<rfloor> = 119" by (rule floor_unique) simp_all
  then have "ulp (239 / 2) = 1 / 2 ^ 46"
    by (simp add: ulp_def exponent_def log2_floor.simps two_pow_def)
  then have "(239 / 2 :: rat) = of_int (239 * 2 ^ 45) * ulp (239 / 2)" by simp
  then show ?thesis by (rule is_double_multiple [rotated]) simp_all
qed

lemma is_double_125: "is_double 125"
proof -
  have "ulp 125 = 1 / 2 ^ 46"
    by (simp add: ulp_def exponent_def log2_floor.simps two_pow_def)
  then have "(125 :: rat) = of_int (125 * 2 ^ 46) * ulp 125" by simp
  then show ?thesis by (rule is_double_multiple [rotated]) simp_all
qed

lemma is_double_large: "is_double 539999999999999936"
proof -
  have "ulp 539999999999999936 = 64"
    by (simp add: ulp_def exponent_def log2_floor.simps two_pow_def)
  then have "(539999999999999936 :: rat) = of_int 8437499999999999 * ulp 539999999999999936"
    by simp
  then show ?thesis by (rule is_double_multiple [rotated]) simp_all
qed

text \<open>
  The quotient of 539999999999999936 by 60 is 134999999999999984 / 15 in lowest terms,
  between 8999999999999998.9 and 8999999999999999; the doubles there are the integers.
\<close>

lemma round_double_large_quotient:
  "round_double (134999999999999984 / 15) = Finite 8999999999999999"
proof -
  have f: "\<lfloor>134999999999999984 / 15 :: rat\<rfloor> = 8999999999999998"
    by (rule floor_unique) simp_all
  then have u: "ulp (134999999999999984 / 15) = 1"
    by (simp add: ulp_def exponent_def log2_floor.simps two_pow_def)
  have "round_half_even (134999999999999984 / 15) = 8999999999999999"
    by (simp add: round_half_even_def f)
  then show ?thesis by (simp add: round_double_def u)
qed

lemma formatDuration_large:
  "formatDuration unrendered (Some (Finite 539999999999999936)) = ''8999999999999999h 56m''"
proof -
  let ?N = "539999999999999936 :: rat"
  have f: "\<lfloor>134999999999999984 / 15 :: rat\<rfloor> = 8999999999999998"
    by (rule floor_unique) simp_all
  have lt: "\<not> js_less (Finite ?N) 60" by (simp add: js_less_def)
  have h: "Math_floor (js_divide (Finite ?N) 60) = Finite (of_int 8999999999999999)"
    by (simp add: js_divide_def round_double_large_quotient Math_floor_def)
  have "\<lfloor>56 + 1 / 2 :: rat\<rfloor> = 56" by (rule floor_unique) simp_all
  then have m: "Math_round (js_remainder (Finite ?N) 60) = Finite (of_int 56)"
    by (simp add: js_remainder_def js_truncate_def f Math_round_def)
  have ts1: "to_string unrendered (Finite (of_int 8999999999999999)) = ''8999999999999999''"
    using to_string_integer [of 8999999999999999 unrendered]
    by (simp add: number_to_string_def show_nat.simps digit_char_numerals)
  have ts2: "to_string unrendered (Finite (of_int 56)) = ''56''"
    using to_string_integer [of 56 unrendered]
    by (simp add: number_to_string_def show_nat.simps digit_char_numerals)
  have "formatDuration unrendered (Some (Finite ?N)) =
      to_string unrendered (Math_floor (js_divide (Finite ?N) 60)) @ ''h '' @
      to_string unrendered (Math_round (js_remainder (Finite ?N) 60)) @ ''m''"
    by (simp only: formatDuration_def option.case lt if_False Let_def)
  then show ?thesis by (simp only: h m ts1 ts2) simp
qed

text \<open>
  C10, as stated, fails for large durations: the quotient \<^verbatim>\<open>minutes / 60\<close> is rounded to
  a double before \<^verbatim>\<open>Math.floor\<close>, and the rounding can reach the next integer. The double
  539999999999999936 gives 8999999999999999 hours, and the floor of the exact quotient
  is 8999999999999998.
\<close>

theorem formatDuration_counterexample:
  "is_double 539999999999999936
   \<and> (60::rat) \<le> 539999999999999936
   \<and> formatDuration unrendered (Some (Finite 539999999999999936)) = ''8999999999999999h 56m''
   \<and> \<lfloor>539999999999999936 / 60 :: rat\<rfloor> = 8999999999999998"
proof -
  have "\<lfloor>539999999999999936 / 60 :: rat\<rfloor> = 8999999999999998"
    by (rule floor_unique) simp_all
  then show ?thesis
    using is_double_large formatDuration_large by simp
qed

text \<open>
  C10, amended. \<^verbatim>\<open>formatDuration\<close> returns a string on every input, \<^verbatim>\<open>NaN\<close> and the
  infinities included, and the string is \<^verbatim>\<open>N/A\<close> exactly when the input is \<^verbatim>\<open>null\<close>.
  For \<open>0 \<le> m < 60\<close> it is the nearest integer to \<open>m\<close> followed by \<^verbatim>\<open>min\<close>. For a double
  \<open>n\<close> with \<open>60 \<le> n < 2^53\<close> it is \<open>\<lfloor>n / 60\<rfloor>\<close> hours and the rounded remainder of \<open>n\<close>
  modulo 60 as minutes; the minutes lie between 0 and 60, and 60 is reached:
  \<^verbatim>\<open>formatDuration(119.5)\<close> is \<^verbatim>\<open>1h 60m\<close>.
\<close>

theorem formatDuration_cases:
  "(formatDuration render x = ''N/A'' \<longleftrightarrow> x = None)
   \<and> (0 \<le> m \<and> m < 60 \<longrightarrow>
        formatDuration render (Some (Finite m)) = number_to_string (round m) @ ''min''
        \<and> \<bar>of_int (round m) - m\<bar> \<le> 1 / 2)
   \<and> (is_double n \<and> 60 \<le> n \<and> n < 2 ^ 53 \<longrightarrow>
        formatDuration render (Some (Finite n)) =
          number_to_string \<lfloor>n / 60\<rfloor> @ ''h '' @
          number_to_string (round (n - 60 * of_int \<lfloor>n / 60\<rfloor>)) @ ''m''
        \<and> 0 \<le> round (n - 60 * of_int \<lfloor>n / 60\<rfloor>)
        \<and> round (n - 60 * of_int \<lfloor>n / 60\<rfloor>) \<le> 60)
   \<and> is_double (239 / 2)
   \<and> formatDuration render (Some (Finite (239 / 2))) = ''1h 60m''"
proof -
  note d = is_double_119_5
  have "formatDuration render (Some (Finite (239 / 2))) =
     number_to_string \<lfloor>(239 / 2 :: rat) / 60\<rfloor> @ ''h '' @
     number_to_string (round ((239 / 2 :: rat) - 60 * of_int \<lfloor>(239 / 2 :: rat) / 60\<rfloor>)) @ ''m''"
    by (rule formatDuration_from_hour [OF d]) simp_all
  also have "\<dots> = ''1h 60m''" by code_simp
  finally have e: "formatDuration render (Some (Finite (239 / 2))) = ''1h 60m''" .
  show ?thesis
    using formatDuration_NA_iff [of render x] formatDuration_below_hour [of m render]
      formatDuration_from_hour [of n render] rounded_remainder_range [of n]
      of_int_round_abs_le [of m] d e
    by blast
qed

theorem formatDuration_cases_witness:
  "(0::rat) \<le> 91 / 2 \<and> (91 / 2 :: rat) < 60
   \<and> is_double 125 \<and> (60::rat) \<le> 125 \<and> (125::rat) < 2 ^ 53
   \<and> formatDuration unrendered (Some NaN) \<noteq> ''N/A''
   \<and> formatDuration unrendered (Some (Finite (91 / 2))) = ''46min''
   \<and> formatDuration unrendered (Some (Finite 125)) = ''2h 5m''"
proof -
  have h: "(0::rat) \<le> 91 / 2 \<and> (91 / 2 :: rat) < 60"
    "is_double 125 \<and> (60::rat) \<le> 125 \<and> (125::rat) < 2 ^ 53"
    using is_double_125 by simp_all
  have r: "number_to_string (round (91 / 2 :: rat)) @ ''min'' = ''46min''"
    "number_to_string \<lfloor>125 / 60 :: rat\<rfloor> @ ''h '' @
       number_to_string (round ((125::rat) - 60 * of_int \<lfloor>125 / 60 :: rat\<rfloor>)) @ ''m'' = ''2h 5m''"
    by code_simp+
  note T = formatDuration_cases [of unrendered "Some NaN" "91 / 2" 125]
  have a: "formatDuration unrendered (Some NaN) \<noteq> ''N/A''" using T by simp
  have b: "formatDuration unrendered (Some (Finite (91 / 2))) = ''46min''"
    using T h(1) r(1) by simp
  have c: "formatDuration unrendered (Some (Finite 125)) = ''2h 5m''"
    using T h(2) r(2) by simp
  from h a b c show ?thesis by (simp only: simp_thms)
qed

section \<open>Rejections of the fetcher\<close>

lemma number_to_string_nat: "number_to_string (int s) = show_nat s"
  by (simp add: number_to_string_def)

lemma http_status_of_message:
  "http_status_of (Error (''API error: '' @ number_to_string (int s))) = Some s"
  by (simp add: http_status_of_def number_to_string_nat parse_show_nat)

text \<open>
  C4. A response with a status outside 200..299 makes \<^verbatim>\<open>fetcher\<close> reject with an
  \<^verbatim>\<open>Error\<close> whose message is \<^verbatim>\<open>API error: \<close> followed by the status, from which the status
  can be read back. A response in 200..299 whose body does not decode rejects with the
  reason of \<^verbatim>\<open>response.json()\<close>, passed on in the same way as the reason of a failed
  \<^verbatim>\<open>fetch\<close>. Nothing else makes \<^verbatim>\<open>fetcher\<close> reject: every rejection is a failed request,
  a status outside 200..299 or a failed decoding.
\<close>

theorem fetcher_rejections:
  "(fetch url = Inl r \<longrightarrow> fetcher fetch url = Inl (Platform r))
   \<and> (fetch url = Inr response \<and> \<not> (200 \<le> status response \<and> status response \<le> 299) \<longrightarrow>
        fetcher fetch url = Inl (Error (''API error: '' @ number_to_string (int (status response))))
        \<and> http_status_of (projl (fetcher fetch url)) = Some (status response))
   \<and> (fetch url = Inr response \<and> 200 \<le> status response \<and> status response \<le> 299
        \<and> json response = Inl r \<longrightarrow>
        fetcher fetch url = Inl (Platform r))
   \<and> (fetcher fetch url = Inl e \<longrightarrow>
        (\<exists>r'. fetch url = Inl r' \<and> e = Platform r')
        \<or> (\<exists>resp. fetch url = Inr resp \<and> \<not> (200 \<le> status resp \<and> status resp \<le> 299)
              \<and> e = Error (''API error: '' @ number_to_string (int (status resp))))
        \<or> (\<exists>resp r'. fetch url = Inr resp \<and> 200 \<le> status resp \<and> status resp \<le> 299
              \<and> json resp = Inl r' \<and> e = Platform r'))"
proof (intro conjI impI)
  assume "fetch url = Inl r"
  then show "fetcher fetch url = Inl (Platform r)" by (simp add: fetcher_def)
next
  assume "fetch url = Inr response \<and> \<not> (200 \<le> status response \<and> status response \<le> 299)"
  then show e: "fetcher fetch url =
      Inl (Error (''API error: '' @ number_to_string (int (status response))))"
    by (simp add: fetcher_def ok_def)
  show "http_status_of (projl (fetcher fetch url)) = Some (status response)"
    by (simp only: e sum.sel http_status_of_message)
next
  assume "fetch url = Inr response \<and> 200 \<le> status response \<and> status response \<le> 299
      \<and> json response = Inl r"
  then show "fetcher fetch url = Inl (Platform r)" by (simp add: fetcher_def ok_def)
next
  assume "fetcher fetch url = Inl e"
  then show "(\<exists>r'. fetch url = Inl r' \<and> e = Platform r')
        \<or> (\<exists>resp. fetch url = Inr resp \<and> \<not> (200 \<le> status resp \<and> status resp \<le> 299)
              \<and> e = Error (''API error: '' @ number_to_string (int (status resp))))
        \<or> (\<exists>resp r'. fetch url = Inr resp \<and> 200 \<le> status resp \<and> status resp \<le> 299
              \<and> json resp = Inl r' \<and> e = Platform r')"
    by (auto simp: fetcher_def ok_def split: sum.splits if_splits)
qed

theorem fetcher_rejections_witness:
  "fetcher (\<lambda>u. Inl ''Failed to fetch'') ''/api/v1/dashboard/charts''
     = (Inl (Platform ''Failed to fetch'') :: string reason + unit)
   \<and> fetcher (\<lambda>u. Inr \<lparr>status = 404, json = Inr ()\<rparr>) ''/api/v1/dashboard/charts''
     = (Inl (Error ''API error: 404'') :: string reason + unit)
   \<and> http_status_of (projl (fetcher (\<lambda>u. Inr \<lparr>status = 404, json = Inr ()\<rparr>)
         ''/api/v1/dashboard/charts'' :: string reason + unit)) = Some 404
   \<and> fetcher (\<lambda>u. Inr \<lparr>status = 200, json = Inl ''Unexpected token''\<rparr>) ''/api/v1/dashboard/charts''
     = (Inl (Platform ''Unexpected token'') :: string reason + unit)"
proof -
  let ?url = "''/api/v1/dashboard/charts''"
  let ?e = "Platform ''Failed to fetch'' :: string reason"
  let ?notfound = "\<lparr>status = 404, json = Inr ()\<rparr> :: (string, unit) response"
  let ?garbled = "\<lparr>status = 200, json = Inl ''Unexpected token''\<rparr> :: (string, unit) response"
  have m: "''API error: '' @ number_to_string (int (status ?notfound)) = ''API error: 404''"
    by (simp add: number_to_string_def show_nat.simps digit_char_numerals)
  have a: "fetcher (\<lambda>u. Inl ''Failed to fetch'') ?url = (Inl ?e :: string reason + unit)"
    using fetcher_rejections
      [of "\<lambda>u. Inl ''Failed to fetch''" ?url "''Failed to fetch''" ?notfound ?e]
    by simp
  have hb: "(\<lambda>u. Inr ?notfound :: string + (string, unit) response) ?url = Inr ?notfound
      \<and> \<not> (200 \<le> status ?notfound \<and> status ?notfound \<le> 299)"
    by simp
  have b: "fetcher (\<lambda>u. Inr ?notfound) ?url
        = Inl (Error (''API error: '' @ number_to_string (int (status ?notfound))))
      \<and> http_status_of (projl (fetcher (\<lambda>u. Inr ?notfound) ?url)) = Some (status ?notfound)"
    using fetcher_rejections [of "\<lambda>u. Inr ?notfound" ?url "''x''" ?notfound ?e] hb
    by blast
  have hc: "(\<lambda>u. Inr ?garbled :: string + (string, unit) response) ?url = Inr ?garbled
      \<and> 200 \<le> status ?garbled \<and> status ?garbled \<le> 299
      \<and> json ?garbled = Inl ''Unexpected token''"
    by simp
  have c: "fetcher (\<lambda>u. Inr ?garbled) ?url = Inl (Platform ''Unexpected token'')"
    using fetcher_rejections
      [of "\<lambda>u. Inr ?garbled" ?url "''Unexpected token''" ?garbled ?e] hc
    by blast
  have b1: "fetcher (\<lambda>u. Inr ?notfound) ?url = Inl (Error ''API error: 404'')"
    using conjunct1 [OF b] m by simp
  have b2: "http_status_of (projl (fetcher (\<lambda>u. Inr ?notfound) ?url)) = Some 404"
    using conjunct2 [OF b] by simp
  from a b1 b2 c show ?thesis by (simp only: simp_thms)
qed

section \<open>The manual refresh\<close>

lemma is_fulfilled_catch_null: "is_fulfilled (catch_null p)"
  by (simp add: is_fulfilled_def catch_null_def split: outcome.splits)

lemma settled_at_catch_null: "settled_at (catch_null p) = settled_at p"
  by (simp add: catch_null_def)

lemma first_rejection_None_iff: "first_rejection ps = None \<longleftrightarrow> list_all is_fulfilled ps"
  by (induction ps) (auto simp: is_fulfilled_def split: outcome.splits option.splits)

lemma Promise_all_fulfilled:
  "list_all is_fulfilled ps \<Longrightarrow>
     Promise_all now ps =
       \<lparr> settled_at = fold max (map settled_at ps) now, outcome = Fulfilled (fulfilled_values ps) \<rparr>"
  using first_rejection_None_iff [of ps] by (simp add: Promise_all_def)

lemma Promise_all_rejected:
  "\<not> list_all is_fulfilled ps \<Longrightarrow> \<not> is_fulfilled (Promise_all now ps)"
proof -
  assume "\<not> list_all is_fulfilled ps"
  then obtain t e where "first_rejection ps = Some (t, e)"
    using first_rejection_None_iff [of ps] by (cases "first_rejection ps") auto
  then show ?thesis by (simp add: Promise_all_def is_fulfilled_def)
qed

lemma fold_max3: "fold max [a, b, c] (now::nat) = max now (max a (max b c))"
  by (simp add: max.assoc max.commute max.left_commute)

lemma refreshAllData_settles:
  "outcome (refreshAllData fetch now) = Fulfilled ()
   \<and> settled_at (refreshAllData fetch now) =
       max now (max (settled_at (fetch ''/api/v1/dashboard/overview''))
         (max (settled_at (fetch ''/api/v1/dashboard/charts''))
              (settled_at (fetch ''/api/v1/dashboard/recent-activities''))))"
proof -
  let ?ps = "map (\<lambda>endpoint. catch_null (fetch (API_BASE @ endpoint))) endpoints"
  have "list_all is_fulfilled ?ps"
    by (simp add: endpoints_def is_fulfilled_catch_null)
  then have "Promise_all now ?ps =
      \<lparr> settled_at = fold max (map settled_at ?ps) now, outcome = Fulfilled (fulfilled_values ?ps) \<rparr>"
    by (rule Promise_all_fulfilled)
  moreover have "map settled_at ?ps =
      [settled_at (fetch ''/api/v1/dashboard/overview''),
       settled_at (fetch ''/api/v1/dashboard/charts''),
       settled_at (fetch ''/api/v1/dashboard/recent-activities'')]"
    by (simp add: endpoints_def API_BASE_def settled_at_catch_null)
  ultimately show ?thesis
    by (simp add: refreshAllData_def await_then_return_def fold_max3)
qed

lemma isRefreshing_two_updates:
  "isRefreshing [(a, True), (b, False)] t \<longleftrightarrow> a \<le> t \<and> t < b"
  by (auto simp: isRefreshing_def)

lemma isRefreshing_one_update: "isRefreshing [(a, True)] t \<longleftrightarrow> a \<le> t"
  by (simp add: isRefreshing_def)

lemma handleRefresh_all_fulfilled:
  assumes "is_fulfilled (rO now) \<and> is_fulfilled (rC now) \<and> is_fulfilled (rA now)"
  shows "handleRefresh rO rC rA now =
      \<lparr> completion =
          \<lparr> settled_at = max now (max (settled_at (rO now))
                 (max (settled_at (rC now)) (settled_at (rA now)))),
            outcome = Fulfilled () \<rparr>,
        setIsRefreshing =
          [(now, True),
           (max now (max (settled_at (rO now))
              (max (settled_at (rC now)) (settled_at (rA now)))) + 500, False)] \<rparr>"
proof -
  have "list_all is_fulfilled [rO now, rC now, rA now]" using assms by simp
  then have "Promise_all now [rO now, rC now, rA now] =
      \<lparr> settled_at = fold max (map settled_at [rO now, rC now, rA now]) now,
        outcome = Fulfilled (fulfilled_values [rO now, rC now, rA now]) \<rparr>"
    by (rule Promise_all_fulfilled)
  then show ?thesis
    by (simp add: handleRefresh_def fold_max3 del: fold_simps fulfilled_values.simps)
qed

lemma handleRefresh_some_rejected:
  assumes "\<not> (is_fulfilled (rO now) \<and> is_fulfilled (rC now) \<and> is_fulfilled (rA now))"
  shows "\<not> is_fulfilled (completion (handleRefresh rO rC rA now))
    \<and> setIsRefreshing (handleRefresh rO rC rA now) = [(now, True)]"
proof -
  have "\<not> list_all is_fulfilled [rO now, rC now, rA now]" using assms by simp
  then have "\<not> is_fulfilled (Promise_all now [rO now, rC now, rA now])"
    by (rule Promise_all_rejected)
  then show ?thesis
    by (simp add: handleRefresh_def is_fulfilled_def Let_def split: outcome.splits)
qed

lemma first_rejection_member:
  "first_rejection ps = Some (t, e) \<Longrightarrow> \<exists>p\<in>set ps. settled_at p = t \<and> outcome p = Rejected e"
  by (induction ps arbitrary: t e) (auto split: outcome.splits option.splits if_splits)

lemma first_rejection_earliest:
  "first_rejection ps = Some (t, e) \<Longrightarrow> p \<in> set ps \<Longrightarrow> \<not> is_fulfilled p \<Longrightarrow> t \<le> settled_at p"
  by (induction ps arbitrary: t e)
    (auto simp: is_fulfilled_def first_rejection_None_iff list_all_iff
      split: outcome.splits option.splits if_splits)

lemma handleRefresh_completion:
  "completion (handleRefresh rO rC rA now) =
     await_then_return (Promise_all now [rO now, rC now, rA now])"
  by (simp add: handleRefresh_def await_then_return_def Let_def split: outcome.splits)

lemma handleRefresh_settles_by:
  "settled_at (completion (handleRefresh rO rC rA now)) \<le>
     max now (max (settled_at (rO now)) (max (settled_at (rC now)) (settled_at (rA now))))"
proof (cases "first_rejection [rO now, rC now, rA now]")
  case None
  then have eq: "settled_at (completion (handleRefresh rO rC rA now)) =
      fold max [settled_at (rO now), settled_at (rC now), settled_at (rA now)] now"
    by (simp add: handleRefresh_completion await_then_return_def Promise_all_def
        del: first_rejection.simps fold_simps fulfilled_values.simps)
  show ?thesis unfolding eq fold_max3 by (rule order_refl)
next
  case (Some te)
  obtain t e where te: "te = (t, e)" by (cases te)
  with Some first_rejection_member [of "[rO now, rC now, rA now]" t e]
  have "t = settled_at (rO now) \<or> t = settled_at (rC now) \<or> t = settled_at (rA now)"
    by auto
  then have "max now t \<le>
      max now (max (settled_at (rO now)) (max (settled_at (rC now)) (settled_at (rA now))))"
    by auto
  then show ?thesis
    using Some te
    by (simp add: handleRefresh_completion await_then_return_def Promise_all_def
        del: first_rejection.simps)
qed

text \<open>
  When a refresh rejects, the \<^verbatim>\<open>await\<close> throws before the timer is set, and the flag is
  not lowered again.
\<close>

lemma handleRefresh_flag_stays_up:
  assumes "\<not> (is_fulfilled (rO now) \<and> is_fulfilled (rC now) \<and> is_fulfilled (rA now))"
  shows "isRefreshing (setIsRefreshing (handleRefresh rO rC rA now)) t \<longleftrightarrow> now \<le> t"
  using handleRefresh_some_rejected [of rO now rC rA, OF assms]
  by (simp add: isRefreshing_one_update)

lemma handleRefresh_fulfilled_iff:
  "is_fulfilled (completion (handleRefresh rO rC rA now)) \<longleftrightarrow>
     is_fulfilled (rO now) \<and> is_fulfilled (rC now) \<and> is_fulfilled (rA now)"
proof (cases "is_fulfilled (rO now) \<and> is_fulfilled (rC now) \<and> is_fulfilled (rA now)")
  case True
  then show ?thesis
    by (simp add: handleRefresh_all_fulfilled [of rO now rC rA, OF True] is_fulfilled_def)
next
  case False
  then show ?thesis using handleRefresh_some_rejected [of rO now rC rA, OF False] by blast
qed

lemma refreshAllData_result:
  "refreshAllData fetch now =
     \<lparr> settled_at = max now (max (settled_at (fetch ''/api/v1/dashboard/overview''))
         (max (settled_at (fetch ''/api/v1/dashboard/charts''))
              (settled_at (fetch ''/api/v1/dashboard/recent-activities'')))),
       outcome = Fulfilled () \<rparr>"
  using refreshAllData_settles [of fetch now] by (cases "refreshAllData fetch now") simp


text \<open>
  C2, as stated, fails. With three refreshes that settle 1000 ms after the invocation at
  time 0, the flag should fall at \<open>max 1000 (0 + 500) = 1000\<close>; it is still up at 1200.
\<close>

theorem isRefreshing_counterexample:
  "settled_at (completion (handleRefresh (fulfils_after 1000) (fulfils_after 1000)
      (fulfils_after 1000 :: time \<Rightarrow> (unit, unit) promise) 0)) = 1000
   \<and> max 1000 (0 + 500) \<le> (1200::nat)
   \<and> isRefreshing (setIsRefreshing (handleRefresh (fulfils_after 1000) (fulfils_after 1000)
      (fulfils_after 1000 :: time \<Rightarrow> (unit, unit) promise) 0)) 1200"
proof -
  have f: "is_fulfilled (fulfils_after 1000 0 :: (unit, unit) promise)
      \<and> is_fulfilled (fulfils_after 1000 0 :: (unit, unit) promise)
      \<and> is_fulfilled (fulfils_after 1000 0 :: (unit, unit) promise)"
    by (simp add: is_fulfilled_def fulfils_after_def)
  show ?thesis
    by (simp add: handleRefresh_all_fulfilled
          [of "fulfils_after 1000" 0 "fulfils_after 1000" "fulfils_after 1000", OF f]
        isRefreshing_two_updates)
      (simp add: fulfils_after_def)
qed

text \<open>
  C2, amended. For an invocation whose three refreshes fulfil, \<^verbatim>\<open>isRefreshing\<close> is true
  from the invocation until 500 ms after the last refresh has settled, and false from
  then on: the 500 ms are added to the settlement time, they are not a lower bound that
  a slow refresh absorbs. The flag is therefore up for at least 500 ms.
\<close>

theorem isRefreshing_window:
  "is_fulfilled (rO now) \<and> is_fulfilled (rC now) \<and> is_fulfilled (rA now) \<longrightarrow>
     (isRefreshing (setIsRefreshing (handleRefresh rO rC rA now)) t \<longleftrightarrow>
        now \<le> t \<and> t < settled_at (completion (handleRefresh rO rC rA now)) + 500)
     \<and> settled_at (completion (handleRefresh rO rC rA now)) =
         max now (max (settled_at (rO now)) (max (settled_at (rC now)) (settled_at (rA now))))"
proof
  assume f: "is_fulfilled (rO now) \<and> is_fulfilled (rC now) \<and> is_fulfilled (rA now)"
  show "(isRefreshing (setIsRefreshing (handleRefresh rO rC rA now)) t \<longleftrightarrow>
        now \<le> t \<and> t < settled_at (completion (handleRefresh rO rC rA now)) + 500)
     \<and> settled_at (completion (handleRefresh rO rC rA now)) =
         max now (max (settled_at (rO now)) (max (settled_at (rC now)) (settled_at (rA now))))"
    by (simp add: handleRefresh_all_fulfilled [of rO now rC rA, OF f] isRefreshing_two_updates)
qed

theorem isRefreshing_window_witness:
  "is_fulfilled (fulfils_after 0 7 :: (unit, unit) promise)
   \<and> isRefreshing (setIsRefreshing (handleRefresh (fulfils_after 0) (fulfils_after 0)
        (fulfils_after 0 :: time \<Rightarrow> (unit, unit) promise) 7)) 506
   \<and> \<not> isRefreshing (setIsRefreshing (handleRefresh (fulfils_after 0) (fulfils_after 0)
        (fulfils_after 0 :: time \<Rightarrow> (unit, unit) promise) 7)) 507"
proof -
  let ?r = "fulfils_after 0 :: time \<Rightarrow> (unit, unit) promise"
  have f: "is_fulfilled (?r 7)" by (simp add: is_fulfilled_def fulfils_after_def)
  have s: "settled_at (?r 7) = 7" by (simp add: fulfils_after_def)
  have a: "isRefreshing (setIsRefreshing (handleRefresh ?r ?r ?r 7)) 506"
    using isRefreshing_window [of ?r 7 ?r ?r 506] f s by simp
  have b: "\<not> isRefreshing (setIsRefreshing (handleRefresh ?r ?r ?r 7)) 507"
    using isRefreshing_window [of ?r 7 ?r ?r 507] f s by simp
  from f a b show ?thesis by (simp only: simp_thms)
qed

section \<open>The manual refresh over the revalidation\<close>

lemma subscription_keys:
  "key useDashboardOverview = ''/api/v1/dashboard/overview''"
  "key useChartsData = ''/api/v1/dashboard/charts''"
  "key (useRecentActivities render None) = ''/api/v1/dashboard/recent-activities?limit=20''"
proof -
  have "to_string render (Finite 20) = ''20''"
    using to_string_integer [of 20 render]
    by (simp add: number_to_string_def show_nat.simps digit_char_numerals)
  then show "key (useRecentActivities render None) =
      ''/api/v1/dashboard/recent-activities?limit=20''"
    by (simp add: key_useRecentActivities limit_or_default_def)
qed (simp_all add: useDashboardOverview_def useChartsData_def API_BASE_def)

lemma revalidate_fulfils: "is_fulfilled (refresh_promise (revalidate request k now))"
  by (simp add: revalidate_def Let_def is_fulfilled_def)

lemma revalidate_settled_at:
  "settled_at (refresh_promise (revalidate request k now)) = max now (settled_at (request k))"
  by (simp add: revalidate_def Let_def)

lemma max_now_absorb:
  "max now (max (max now a) (max (max now b) (max now c))) = max now (max a (max b c))"
  for now :: nat
  by (simp add: max_def)

lemma App_manual_refresh_run:
  "run (App_manual_refresh render request now) =
     \<lparr> completion =
         \<lparr> settled_at = max now (max (settled_at (request ''/api/v1/dashboard/overview''))
             (max (settled_at (request ''/api/v1/dashboard/charts''))
                  (settled_at (request ''/api/v1/dashboard/recent-activities?limit=20'')))),
           outcome = Fulfilled () \<rparr>,
       setIsRefreshing =
         [(now, True),
          (max now (max (settled_at (request ''/api/v1/dashboard/overview''))
             (max (settled_at (request ''/api/v1/dashboard/charts''))
                  (settled_at (request ''/api/v1/dashboard/recent-activities?limit=20'')))) + 500,
           False)] \<rparr>"
proof -
  let ?rO = "\<lambda>t. refresh_promise (revalidate request ''/api/v1/dashboard/overview'' t)"
  let ?rC = "\<lambda>t. refresh_promise (revalidate request ''/api/v1/dashboard/charts'' t)"
  let ?rA = "\<lambda>t. refresh_promise
      (revalidate request ''/api/v1/dashboard/recent-activities?limit=20'' t)"
  have f: "is_fulfilled (?rO now) \<and> is_fulfilled (?rC now) \<and> is_fulfilled (?rA now)"
    by (simp only: revalidate_fulfils simp_thms)
  have "run (App_manual_refresh render request now) = handleRefresh ?rO ?rC ?rA now"
    by (simp add: App_manual_refresh_def handleRefresh_effects_def subscription_keys Let_def)
  also have "\<dots> =
      \<lparr> completion =
          \<lparr> settled_at = max now (max (settled_at (?rO now))
                 (max (settled_at (?rC now)) (settled_at (?rA now)))),
            outcome = Fulfilled () \<rparr>,
        setIsRefreshing =
          [(now, True),
           (max now (max (settled_at (?rO now))
              (max (settled_at (?rC now)) (settled_at (?rA now)))) + 500, False)] \<rparr>"
    by (rule handleRefresh_all_fulfilled [of ?rO now ?rC ?rA, OF f])
  finally show ?thesis by (simp only: revalidate_settled_at max_now_absorb)
qed

text \<open>
  C1. The manual refresh settles on every invocation, it resolves only after the request
  of every key has settled, and a failed request neither aborts the others nor keeps it
  from settling. \<^verbatim>\<open>handleRefresh\<close>, over the revalidations of the three subscriptions,
  always fulfils, whichever requests fail, at the time the last of the three settles.
  \<^verbatim>\<open>refreshAllData\<close> does the same over its three requests. For any three refresh
  functions, \<^verbatim>\<open>handleRefresh\<close> settles as \<^verbatim>\<open>Promise.all\<close> of their promises does: it
  fulfils exactly when all three do, then at the time the last of them settles, and it
  never settles later than the last of them.
\<close>

theorem manual_refresh_settles:
  "completion (run (App_manual_refresh render request now)) =
     \<lparr> settled_at = max now (max (settled_at (request ''/api/v1/dashboard/overview''))
         (max (settled_at (request ''/api/v1/dashboard/charts''))
              (settled_at (request ''/api/v1/dashboard/recent-activities?limit=20'')))),
       outcome = Fulfilled () \<rparr>
   \<and> refreshAllData fetch now =
     \<lparr> settled_at = max now (max (settled_at (fetch ''/api/v1/dashboard/overview''))
         (max (settled_at (fetch ''/api/v1/dashboard/charts''))
              (settled_at (fetch ''/api/v1/dashboard/recent-activities'')))),
       outcome = Fulfilled () \<rparr>
   \<and> completion (handleRefresh rO rC rA now) =
       await_then_return (Promise_all now [rO now, rC now, rA now])
   \<and> settled_at (completion (handleRefresh rO rC rA now)) \<le>
       max now (max (settled_at (rO now)) (max (settled_at (rC now)) (settled_at (rA now))))
   \<and> (is_fulfilled (completion (handleRefresh rO rC rA now)) \<longleftrightarrow>
        is_fulfilled (rO now) \<and> is_fulfilled (rC now) \<and> is_fulfilled (rA now))
   \<and> (is_fulfilled (completion (handleRefresh rO rC rA now)) \<longrightarrow>
        settled_at (completion (handleRefresh rO rC rA now)) =
          max now (max (settled_at (rO now)) (max (settled_at (rC now)) (settled_at (rA now)))))"
proof -
  have "is_fulfilled (completion (handleRefresh rO rC rA now)) \<longrightarrow>
        settled_at (completion (handleRefresh rO rC rA now)) =
          max now (max (settled_at (rO now)) (max (settled_at (rC now)) (settled_at (rA now))))"
  proof
    assume "is_fulfilled (completion (handleRefresh rO rC rA now))"
    then have f: "is_fulfilled (rO now) \<and> is_fulfilled (rC now) \<and> is_fulfilled (rA now)"
      by (simp only: handleRefresh_fulfilled_iff)
    show "settled_at (completion (handleRefresh rO rC rA now)) =
          max now (max (settled_at (rO now)) (max (settled_at (rC now)) (settled_at (rA now))))"
      by (simp add: handleRefresh_all_fulfilled [of rO now rC rA, OF f])
  qed
  moreover have "completion (run (App_manual_refresh render request now)) =
     \<lparr> settled_at = max now (max (settled_at (request ''/api/v1/dashboard/overview''))
         (max (settled_at (request ''/api/v1/dashboard/charts''))
              (settled_at (request ''/api/v1/dashboard/recent-activities?limit=20'')))),
       outcome = Fulfilled () \<rparr>"
    by (simp add: App_manual_refresh_run)
  ultimately show ?thesis
    using refreshAllData_result [of fetch now] handleRefresh_settles_by [of rO rC rA now]
      handleRefresh_completion [of rO rC rA now] handleRefresh_fulfilled_iff [of rO rC rA now]
    by blast
qed

theorem manual_refresh_settles_witness:
  "outcome (early_failure ''/api/v1/dashboard/charts'') = Rejected ''connection refused''
   \<and> settled_at (early_failure ''/api/v1/dashboard/charts'') = 10
   \<and> completion (run (App_manual_refresh unrendered early_failure 0
        :: (string, string) refresh_effects))
       = \<lparr> settled_at = 50, outcome = Fulfilled () \<rparr>
   \<and> refreshAllData example_fetch 0 = \<lparr> settled_at = 50, outcome = Fulfilled () \<rparr>
   \<and> is_fulfilled (completion (handleRefresh (fulfils_after 10) (fulfils_after 50)
        (fulfils_after 20 :: time \<Rightarrow> (unit, unit) promise) 0))
   \<and> settled_at (completion (handleRefresh (fulfils_after 10) (fulfils_after 50)
        (fulfils_after 20 :: time \<Rightarrow> (unit, unit) promise) 0)) = 50"
proof -
  let ?run = "handleRefresh (fulfils_after 10) (fulfils_after 50)
        (fulfils_after 20 :: time \<Rightarrow> (unit, unit) promise) 0"
  note T = manual_refresh_settles
    [of unrendered early_failure 0 example_fetch "fulfils_after 10" "fulfils_after 50"
        "fulfils_after 20 :: time \<Rightarrow> (unit, unit) promise"]
  have e: "outcome (early_failure ''/api/v1/dashboard/charts'') = Rejected ''connection refused''"
    "settled_at (early_failure ''/api/v1/dashboard/charts'') = 10"
    by (simp_all add: early_failure_def)
  have m: "is_fulfilled (fulfils_after 10 0 :: (unit, unit) promise)
      \<and> is_fulfilled (fulfils_after 50 0 :: (unit, unit) promise)
      \<and> is_fulfilled (fulfils_after 20 0 :: (unit, unit) promise)"
    by (simp add: is_fulfilled_def fulfils_after_def)
  have h: "is_fulfilled (completion ?run)"
    using T m by blast
  have a: "completion (run (App_manual_refresh unrendered early_failure 0
        :: (string, string) refresh_effects)) = \<lparr> settled_at = 50, outcome = Fulfilled () \<rparr>"
    using conjunct1 [OF T] by (simp add: early_failure_def)
  have b: "refreshAllData example_fetch 0 = \<lparr> settled_at = 50, outcome = Fulfilled () \<rparr>"
    using conjunct1 [OF conjunct2 [OF T]] by (simp add: example_fetch_def)
  have "settled_at (completion ?run) =
      max 0 (max (settled_at (fulfils_after 10 0 :: (unit, unit) promise))
        (max (settled_at (fulfils_after 50 0 :: (unit, unit) promise))
             (settled_at (fulfils_after 20 0 :: (unit, unit) promise))))"
    using T h by blast
  then have c: "settled_at (completion ?run) = 50"
    by (simp add: fulfils_after_def)
  from e a b h c show ?thesis by (simp only: simp_thms)
qed

section \<open>The cache after a manual refresh\<close>

lemma cache_at_Nil: "cache_at [] cache t = cache"
  by (simp add: cache_at_def)

lemma cache_at_Cons:
  "cache_at ((t', k, p) # ws) cache t =
     cache_at ws (if t' \<le> t then cache(k := apply_patch t' p (cache k)) else cache) t"
  by (simp add: cache_at_def)

lemma App_manual_refresh_writes:
  "cache_writes (App_manual_refresh render request now) =
     writes_of (revalidate request ''/api/v1/dashboard/overview'' now)
     @ writes_of (revalidate request ''/api/v1/dashboard/charts'' now)
     @ writes_of (revalidate request ''/api/v1/dashboard/recent-activities?limit=20'' now)"
  by (simp add: App_manual_refresh_def handleRefresh_effects_def subscription_keys Let_def)

lemma three_keys_distinct:
  "''/api/v1/dashboard/overview'' \<noteq> ''/api/v1/dashboard/charts''"
  "''/api/v1/dashboard/overview'' \<noteq> ''/api/v1/dashboard/recent-activities?limit=20''"
  "''/api/v1/dashboard/charts'' \<noteq> ''/api/v1/dashboard/recent-activities?limit=20''"
  by simp_all

text \<open>
  Six writes, two for each of three different keys, all made by the time \<open>t\<close>: the entry of
  each key has its own two patches, and no other entry changes.
\<close>

lemma cache_at_three_keys:
  assumes d: "kO \<noteq> kC" "kO \<noteq> kA" "kC \<noteq> kA"
    and t: "now \<le> t" "tO \<le> t" "tC \<le> t" "tA \<le> t"
  shows "cache_at [(now, kO, Validating), (tO, kO, pO), (now, kC, Validating), (tC, kC, pC),
      (now, kA, Validating), (tA, kA, pA)] cache t k =
    (if k = kO then apply_patch tO pO (apply_patch now Validating (cache kO))
     else if k = kC then apply_patch tC pC (apply_patch now Validating (cache kC))
     else if k = kA then apply_patch tA pA (apply_patch now Validating (cache kA))
     else cache k)"
  using d t by (simp add: cache_at_Cons cache_at_Nil)

lemma entry_after_refresh_eq:
  "entry_after_refresh render request cache now k =
    (if k = ''/api/v1/dashboard/overview'' \<or> k = ''/api/v1/dashboard/charts''
        \<or> k = ''/api/v1/dashboard/recent-activities?limit=20''
     then apply_patch (max now (settled_at (request k))) (Settled (outcome (request k)))
            (apply_patch now Validating (cache k))
     else cache k)"
proof -
  let ?kO = "''/api/v1/dashboard/overview''"
  let ?kC = "''/api/v1/dashboard/charts''"
  let ?kA = "''/api/v1/dashboard/recent-activities?limit=20''"
  let ?T = "max now (max (settled_at (request ?kO))
      (max (settled_at (request ?kC)) (settled_at (request ?kA))))"
  have T: "settled_at (completion (run (App_manual_refresh render request now))) = ?T"
    by (simp add: App_manual_refresh_run)
  have w: "cache_writes (App_manual_refresh render request now) =
      [(now, ?kO, Validating),
       (max now (settled_at (request ?kO)), ?kO, Settled (outcome (request ?kO))),
       (now, ?kC, Validating),
       (max now (settled_at (request ?kC)), ?kC, Settled (outcome (request ?kC))),
       (now, ?kA, Validating),
       (max now (settled_at (request ?kA)), ?kA, Settled (outcome (request ?kA)))]"
    by (simp only: App_manual_refresh_writes revalidate_def Let_def revalidation.simps append.simps)
  have le: "now \<le> ?T" "max now (settled_at (request ?kO)) \<le> ?T"
    "max now (settled_at (request ?kC)) \<le> ?T" "max now (settled_at (request ?kA)) \<le> ?T"
    by simp_all
  show ?thesis
    unfolding entry_after_refresh_def T w
    by (simp only: cache_at_three_keys [OF three_keys_distinct le]) auto
qed

text \<open>
  C3, as stated, fails for \<^verbatim>\<open>refreshAllData\<close>. The key of the recent activities that the
  \<^verbatim>\<open>App\<close> subscribes to is not among the URLs it requests; and with a network that
  answers the overview and fails on the charts, after it has resolved (at 50 ms) the
  entry of the overview has no data and the entry of the charts has no error.
\<close>

theorem refreshAllData_counterexample:
  "key (App_subscriptions unrendered ! 2) = ''/api/v1/dashboard/recent-activities?limit=20''
   \<and> key (App_subscriptions unrendered ! 2) \<notin> set refreshAllData_urls
   \<and> outcome (example_fetch ''/api/v1/dashboard/overview'') = Fulfilled ''{}''
   \<and> outcome (example_fetch ''/api/v1/dashboard/charts'') = Rejected ''connection refused''
   \<and> completion (run (refreshAllData_effects example_fetch 0 :: (string, string) refresh_effects))
       = \<lparr> settled_at = 50, outcome = Fulfilled () \<rparr>
   \<and> data (cache_at (cache_writes
          (refreshAllData_effects example_fetch 0 :: (string, string) refresh_effects))
        empty_cache 50 ''/api/v1/dashboard/overview'') = None
   \<and> error (cache_at (cache_writes
          (refreshAllData_effects example_fetch 0 :: (string, string) refresh_effects))
        empty_cache 50 ''/api/v1/dashboard/charts'') = None"
  by (simp add: App_subscriptions_def subscription_keys refreshAllData_urls_def endpoints_def
      API_BASE_def refreshAllData_effects_def refreshAllData_result example_fetch_def
      cache_at_Nil empty_cache_def empty_entry_def)

text \<open>
  C3, amended. The manual refresh of the \<^verbatim>\<open>App\<close>, \<^verbatim>\<open>handleRefresh\<close>, goes through the
  per-resource revalidation: for every registered key (overview, charts, recent
  activities with limit 20) it triggers a revalidating fetch whose result is committed to
  that key's cache entry, so when it has resolved a succeeded key's data is the payload
  and a failed key's error is set, its data kept. \<^verbatim>\<open>refreshAllData\<close> does not: it requests
  three URLs, the recent activities without a limit, and changes no cache entry.
\<close>

theorem manual_refresh_commits:
  "(k = ''/api/v1/dashboard/overview'' \<or> k = ''/api/v1/dashboard/charts''
      \<or> k = ''/api/v1/dashboard/recent-activities?limit=20'' \<longrightarrow>
      is_fulfilled (completion (run (App_manual_refresh render request now)))
      \<and> max now (settled_at (request k))
          \<le> settled_at (completion (run (App_manual_refresh render request now)))
      \<and> entry_after_refresh render request cache now k =
          apply_patch (max now (settled_at (request k))) (Settled (outcome (request k)))
            (apply_patch now Validating (cache k))
      \<and> (outcome (request k) = Fulfilled v \<longrightarrow>
           data (entry_after_refresh render request cache now k) = Some v
           \<and> error (entry_after_refresh render request cache now k) = None
           \<and> \<not> isValidating (entry_after_refresh render request cache now k))
      \<and> (outcome (request k) = Rejected e \<longrightarrow>
           error (entry_after_refresh render request cache now k) = Some e
           \<and> data (entry_after_refresh render request cache now k) = data (cache k)
           \<and> \<not> isValidating (entry_after_refresh render request cache now k)))
   \<and> map key (App_subscriptions render) =
       [''/api/v1/dashboard/overview'', ''/api/v1/dashboard/charts'',
        ''/api/v1/dashboard/recent-activities?limit=20'']
   \<and> refreshAllData_urls =
       [''/api/v1/dashboard/overview'', ''/api/v1/dashboard/charts'',
        ''/api/v1/dashboard/recent-activities'']
   \<and> cache_at (cache_writes (refreshAllData_effects fetch now)) cache t = cache"
proof -
  let ?e = "entry_after_refresh render request cache now k"
  have keys: "map key (App_subscriptions render) =
       [''/api/v1/dashboard/overview'', ''/api/v1/dashboard/charts'',
        ''/api/v1/dashboard/recent-activities?limit=20'']"
    by (simp add: App_subscriptions_def subscription_keys)
  have urls: "refreshAllData_urls =
       [''/api/v1/dashboard/overview'', ''/api/v1/dashboard/charts'',
        ''/api/v1/dashboard/recent-activities'']"
    by (simp add: refreshAllData_urls_def endpoints_def API_BASE_def)
  have none: "cache_at (cache_writes (refreshAllData_effects fetch now)) cache t = cache"
    by (simp add: refreshAllData_effects_def cache_at_Nil)
  have ful: "is_fulfilled (completion (run (App_manual_refresh render request now)))"
    by (simp add: App_manual_refresh_run is_fulfilled_def)
  have main: "k = ''/api/v1/dashboard/overview'' \<or> k = ''/api/v1/dashboard/charts''
      \<or> k = ''/api/v1/dashboard/recent-activities?limit=20'' \<longrightarrow>
      max now (settled_at (request k))
          \<le> settled_at (completion (run (App_manual_refresh render request now)))
      \<and> ?e = apply_patch (max now (settled_at (request k))) (Settled (outcome (request k)))
            (apply_patch now Validating (cache k))
      \<and> (outcome (request k) = Fulfilled v \<longrightarrow>
           data ?e = Some v \<and> error ?e = None \<and> \<not> isValidating ?e)
      \<and> (outcome (request k) = Rejected e \<longrightarrow>
           error ?e = Some e \<and> data ?e = data (cache k) \<and> \<not> isValidating ?e)"
  proof
    assume k: "k = ''/api/v1/dashboard/overview'' \<or> k = ''/api/v1/dashboard/charts''
      \<or> k = ''/api/v1/dashboard/recent-activities?limit=20''"
    then have eq: "?e = apply_patch (max now (settled_at (request k)))
        (Settled (outcome (request k))) (apply_patch now Validating (cache k))"
      by (simp only: entry_after_refresh_eq if_True)
    have le: "max now (settled_at (request k))
        \<le> settled_at (completion (run (App_manual_refresh render request now)))"
      using k by (auto simp: App_manual_refresh_run)
    show "max now (settled_at (request k))
          \<le> settled_at (completion (run (App_manual_refresh render request now)))
      \<and> ?e = apply_patch (max now (settled_at (request k))) (Settled (outcome (request k)))
            (apply_patch now Validating (cache k))
      \<and> (outcome (request k) = Fulfilled v \<longrightarrow>
           data ?e = Some v \<and> error ?e = None \<and> \<not> isValidating ?e)
      \<and> (outcome (request k) = Rejected e \<longrightarrow>
           error ?e = Some e \<and> data ?e = data (cache k) \<and> \<not> isValidating ?e)"
      using le by (simp add: eq apply_patch_def)
  qed
  show ?thesis
  proof (intro conjI)
    show "k = ''/api/v1/dashboard/overview'' \<or> k = ''/api/v1/dashboard/charts''
      \<or> k = ''/api/v1/dashboard/recent-activities?limit=20'' \<longrightarrow>
      is_fulfilled (completion (run (App_manual_refresh render request now)))
      \<and> max now (settled_at (request k))
          \<le> settled_at (completion (run (App_manual_refresh render request now)))
      \<and> ?e = apply_patch (max now (settled_at (request k))) (Settled (outcome (request k)))
            (apply_patch now Validating (cache k))
      \<and> (outcome (request k) = Fulfilled v \<longrightarrow>
           data ?e = Some v \<and> error ?e = None \<and> \<not> isValidating ?e)
      \<and> (outcome (request k) = Rejected e \<longrightarrow>
           error ?e = Some e \<and> data ?e = data (cache k) \<and> \<not> isValidating ?e)"
      using main by (simp only: ful simp_thms)
  qed (rule keys urls none)+
qed

theorem manual_refresh_commits_witness:
  "outcome (early_failure ''/api/v1/dashboard/charts'') = Rejected ''connection refused''
   \<and> outcome (early_failure ''/api/v1/dashboard/overview'') = Fulfilled ''{}''
   \<and> settled_at (completion (run (App_manual_refresh unrendered early_failure 0
        :: (string, string) refresh_effects))) = 50
   \<and> error (entry_after_refresh unrendered early_failure empty_cache 0
        ''/api/v1/dashboard/charts'') = Some ''connection refused''
   \<and> data (entry_after_refresh unrendered early_failure empty_cache 0
        ''/api/v1/dashboard/charts'') = None
   \<and> data (entry_after_refresh unrendered early_failure empty_cache 0
        ''/api/v1/dashboard/overview'') = Some ''{}''
   \<and> error (entry_after_refresh unrendered early_failure empty_cache 0
        ''/api/v1/dashboard/overview'') = None"
proof -
  let ?kC = "''/api/v1/dashboard/charts''"
  let ?kO = "''/api/v1/dashboard/overview''"
  have o: "outcome (early_failure ?kC) = Rejected ''connection refused''"
    "outcome (early_failure ?kO) = Fulfilled ''{}''"
    by (simp_all add: early_failure_def)
  have s: "settled_at (completion (run (App_manual_refresh unrendered early_failure 0
        :: (string, string) refresh_effects))) = 50"
    by (simp add: App_manual_refresh_run early_failure_def)
  have c: "error (entry_after_refresh unrendered early_failure empty_cache 0 ?kC)
        = Some ''connection refused''
      \<and> data (entry_after_refresh unrendered early_failure empty_cache 0 ?kC)
        = data (empty_cache ?kC :: (string, string) cache_entry)"
    using manual_refresh_commits
      [of ?kC unrendered early_failure 0 empty_cache "''{}''" "''connection refused''"] o(1)
    by blast
  have v: "data (entry_after_refresh unrendered early_failure empty_cache 0 ?kO) = Some ''{}''
      \<and> error (entry_after_refresh unrendered early_failure empty_cache 0 ?kO) = None"
    using manual_refresh_commits
      [of ?kO unrendered early_failure 0 empty_cache "''{}''" "''connection refused''"] o(2)
    by blast
  have d: "data (empty_cache ?kC :: (string, string) cache_entry) = None"
    by (simp add: empty_cache_def empty_entry_def)
  from o s c v d show ?thesis by (simp only: simp_thms)
qed

end
